(* ===== verification/Prelude.thy ===== *)
theory Prelude
  imports Complex_Main "HOL-Library.List_Lexorder" "HOL-Library.Char_ord"
    "HOL-Library.Multiset"
begin

text \<open>
  Shared vocabulary of the development: the names of the model's basic types, the
  collection \<open>table_simps\<close> of evaluation rules for the model's definitions, and the
  generic facts about lists and sums that the component theories use (sums over a
  filtered list and its complement, sums over \<open>take\<close>/\<open>drop\<close>, sums of shares).
  Strings are \<open>char list\<close> ordered lexicographically by character code
  (\<open>List_Lexorder\<close>, \<open>Char_ord\<close>), which is the order Python and pandas use on
  the labels of the dataset.
\<close>

named_theorems table_simps "evaluation rules of the dashboard model"

type_synonym label = string

lemma sum_list_filter_compl:
  fixes f :: "'a \<Rightarrow> 'b :: comm_monoid_add"
  shows "sum_list (map f (filter P xs)) + sum_list (map f (filter (\<lambda>x. \<not> P x) xs))
     = sum_list (map f xs)"
  by (induction xs) (simp_all add: ac_simps)

lemma sum_list_take_drop:
  "sum_list (take n xs) + sum_list (drop n xs) = sum_list (xs :: 'a :: monoid_add list)"
  by (simp flip: sum_list_append)

lemma sum_list_map_take_drop:
  "sum_list (map f (take n xs)) + sum_list (map f (drop n xs)) = sum_list (map f xs)"
  by (simp flip: sum_list_append map_append)

lemma sum_list_filter_disj:
  fixes f :: "'a \<Rightarrow> 'b :: comm_monoid_add"
  assumes "\<And>x. \<not> (P x \<and> Q x)"
  shows "sum_list (map f (filter (\<lambda>x. P x \<or> Q x) xs))
           = sum_list (map f (filter P xs)) + sum_list (map f (filter Q xs))"
  using assms by (induction xs) (auto simp: ac_simps)

lemma sum_list_mset_eq:
  fixes f :: "'a \<Rightarrow> 'b :: comm_monoid_add"
  assumes "mset xs = mset ys"
  shows "sum_list (map f xs) = sum_list (map f ys)"
proof -
  have "mset (map f xs) = mset (map f ys)"
    using assms by simp
  then have "sum_mset (mset (map f xs)) = sum_mset (mset (map f ys))"
    by (rule arg_cong)
  then show ?thesis by (simp only: sum_mset_sum_list)
qed

lemma map_of_map_keys:
  "map_of (map (\<lambda>k. (k, f k)) ks) k = (if k \<in> set ks then Some (f k) else None)"
  by (induction ks) auto

lemma sum_list_map_nonneg:
  fixes f :: "'a \<Rightarrow> 'b :: ordered_comm_monoid_add"
  shows "\<forall>x\<in>set xs. 0 \<le> f x \<Longrightarrow> 0 \<le> sum_list (map f xs)"
  by (induction xs) auto

lemma sum_list_divide_right:
  "(\<Sum>x\<leftarrow>xs. f x / (d :: 'a :: field)) = (\<Sum>x\<leftarrow>xs. f x) / d"
  by (induction xs) (simp_all add: add_divide_distrib)

lemma of_int_sum_list_map:
  "of_int (sum_list (xs :: int list)) = (\<Sum>x\<leftarrow>xs. (of_int x :: 'a :: ring_1))"
  by (induction xs) simp_all

lemma sum_list_shares:
  fixes cs :: "int list"
  assumes "sum_list cs \<noteq> 0"
  shows "(\<Sum>c\<leftarrow>cs. (of_int c / of_int (sum_list cs) :: rat)) = 1"
proof -
  have "(\<Sum>c\<leftarrow>cs. (of_int c / of_int (sum_list cs) :: rat))
          = (\<Sum>c\<leftarrow>cs. of_int c :: rat) / of_int (sum_list cs)"
    by (rule sum_list_divide_right)
  also have "(\<Sum>c\<leftarrow>cs. of_int c :: rat) = of_int (sum_list cs)"
    by (simp add: of_int_sum_list_map)
  finally show ?thesis using assms by simp
qed

lemma sorted_partition:
  assumes "sorted (map f zs)"
    and "\<forall>a\<in>set zs. \<forall>b\<in>set zs. P a \<longrightarrow> \<not> P b \<longrightarrow> f b < (f a :: 'b :: linorder)"
  shows "filter (\<lambda>x. \<not> P x) zs @ filter P zs = zs"
  using assms
proof (induction zs)
  case Nil
  then show ?case by simp
next
  case (Cons z zs)
  show ?case
  proof (cases "P z")
    case True
    have "\<forall>b\<in>set zs. P b"
    proof
      fix b assume b: "b \<in> set zs"
      with Cons.prems(1) have "f z \<le> f b" by simp
      with Cons.prems(2) True b show "P b" by (meson list.set_intros leD)
    qed
    with True show ?thesis by simp
  next
    case False
    with Cons show ?thesis by simp
  qed
qed

end
