(* ===== verification/Table.thy ===== *)
theory Table
  imports Prelude
begin

text \<open>
  The dataset of \<open>src/main.py\<close> and the dataframe operations every chart is built
  from: one row of \<open>all_data.csv\<close> as the record \<open>incidence\<close> (columns \<open>Year\<close>,
  \<open>Gender\<close>, \<open>Age\<close>, \<open>Name\<close>, \<open>Count\<close>), a dataframe as a list of rows in file
  order, Python's \<open>max\<close> over the years with its \<open>ValueError\<close> on an empty column,
  the two frames prepared at lines 21--22, pandas' \<open>groupby(key)['Count'].sum()\<close>
  (one row per distinct key, keys in ascending order, the sum of the counts of the key's
  rows), \<open>sort_values(ascending=False)\<close>, and numpy's true division of the counts by
  their total, with \<open>inf\<close> and \<open>nan\<close> where the total is zero.
\<close>

section \<open>Rows and errors\<close>

datatype gender = Male | Female

fun gender_name :: "gender \<Rightarrow> string" where
  "gender_name Male = ''Male''"
| "gender_name Female = ''Female''"

text \<open>
  pandas compares the \<open>Gender\<close> column as strings, so the groups come in the order
  of the names: \<open>Female\<close> before \<open>Male\<close>.
\<close>

instantiation gender :: linorder
begin

definition less_eq_gender :: "gender \<Rightarrow> gender \<Rightarrow> bool" where
  "less_eq_gender a b \<longleftrightarrow> gender_name a \<le> gender_name b"

definition less_gender :: "gender \<Rightarrow> gender \<Rightarrow> bool" where
  "less_gender a b \<longleftrightarrow> gender_name a < gender_name b"

instance
proof
  fix a b c :: gender
  show "a < b \<longleftrightarrow> a \<le> b \<and> \<not> b \<le> a"
    by (auto simp: less_eq_gender_def less_gender_def)
  show "a \<le> a" by (simp add: less_eq_gender_def)
  show "a \<le> b \<Longrightarrow> b \<le> c \<Longrightarrow> a \<le> c"
    by (auto simp: less_eq_gender_def)
  show "a \<le> b \<Longrightarrow> b \<le> a \<Longrightarrow> a = b"
    by (cases a; cases b) (simp_all add: less_eq_gender_def)
  show "a \<le> b \<or> b \<le> a"
    by (auto simp: less_eq_gender_def)
qed

end

record incidence =
  Year :: int
  Gender :: gender
  Age :: label
  Name :: label
  Count :: int

type_synonym table = "incidence list"

text \<open>
  The two ways the script can raise: both are Python \<open>ValueError\<close>s, told apart by
  their message. \<open>InvalidLiteral s\<close> carries the string handed to \<open>int()\<close>.
\<close>

datatype error = MaxOfEmpty | InvalidLiteral string

section \<open>Python's max and the prepared frames (lines 21--22)\<close>

definition py_max :: "int list \<Rightarrow> error + int" where
  "py_max xs = (case xs of [] \<Rightarrow> Inl MaxOfEmpty | y # ys \<Rightarrow> Inr (fold max ys y))"

definition df_after_2003 :: "table \<Rightarrow> table" where
  "df_after_2003 t = filter (\<lambda>r. 2003 < Year r) t"

definition df_latest :: "table \<Rightarrow> error + table" where
  "df_latest t =
     (case py_max (map Year t) of
        Inl e \<Rightarrow> Inl e
      | Inr y \<Rightarrow> Inr (filter (\<lambda>r. Year r = y) t))"

section \<open>pandas group-by-sum, descending sort, numpy division\<close>

definition key_sum :: "('r \<Rightarrow> 'k) \<Rightarrow> ('r \<Rightarrow> int) \<Rightarrow> 'r list \<Rightarrow> 'k \<Rightarrow> int" where
  "key_sum key val rs k = sum_list (map val (filter (\<lambda>r. key r = k) rs))"

definition groupby_sum ::
  "('r \<Rightarrow> 'k :: linorder) \<Rightarrow> ('r \<Rightarrow> int) \<Rightarrow> 'r list \<Rightarrow> ('k \<times> int) list" where
  "groupby_sum key val rs = map (\<lambda>k. (k, key_sum key val rs k)) (sort (remdups (map key rs)))"

definition sort_desc :: "('k \<times> int) list \<Rightarrow> ('k \<times> int) list" where
  "sort_desc xs = sort_key (\<lambda>p. - snd p) xs"

datatype pct = Fin rat | NaN | PosInf | NegInf

definition fdiv :: "int \<Rightarrow> int \<Rightarrow> pct" where
  "fdiv a b =
     (if b = 0 then (if a = 0 then NaN else if 0 < a then PosInf else NegInf)
      else Fin (of_int a / of_int b))"

definition shares :: "int list \<Rightarrow> pct list" where
  "shares cs = map (\<lambda>c. fdiv c (sum_list cs)) cs"

section \<open>Example tables\<close>

text \<open>
  Small inputs the witnesses evaluate the model on: the three rows of the end-to-end
  scenario of the specification (section 8), three age groups given out of order, and
  ten cancer types with distinct counts (one more than the pie keeps).
\<close>

definition example_rows :: table where
  "example_rows =
     [\<lparr>Year = 2020, Gender = Male, Age = ''40 - 44'', Name = ''Lung'', Count = 10\<rparr>,
      \<lparr>Year = 2020, Gender = Female, Age = ''40 - 44'', Name = ''Lung'', Count = 5\<rparr>,
      \<lparr>Year = 2020, Gender = Male, Age = ''40 - 44'', Name = ''Skin'', Count = 3\<rparr>]"

definition example_ages :: table where
  "example_ages =
     [\<lparr>Year = 2020, Gender = Male, Age = ''10 - 14'', Name = ''Lung'', Count = 3\<rparr>,
      \<lparr>Year = 2020, Gender = Male, Age = ''0 - 4'', Name = ''Lung'', Count = 2\<rparr>,
      \<lparr>Year = 2020, Gender = Female, Age = ''85+'', Name = ''Skin'', Count = 7\<rparr>,
      \<lparr>Year = 2020, Gender = Female, Age = ''0 - 4'', Name = ''Skin'', Count = 1\<rparr>]"

definition example_types :: table where
  "example_types =
     map (\<lambda>(n, c). \<lparr>Year = 2020, Gender = Female, Age = ''50 - 54'', Name = n, Count = c\<rparr>)
       [(''A'', 10), (''B'', 9), (''C'', 8), (''D'', 7), (''E'', 6),
        (''F'', 5), (''G'', 4), (''H'', 3), (''I'', 2), (''J'', 1)]"

lemmas [table_simps] = df_after_2003_def df_latest_def py_max_def key_sum_def
  groupby_sum_def sort_desc_def fdiv_def shares_def

section \<open>Properties of the frame operations\<close>

lemma gender_order [simp]: "Female < Male" "\<not> Male < Female"
  by (simp_all add: less_gender_def)


lemma py_max_Inr: "py_max xs = Inr m \<longleftrightarrow> xs \<noteq> [] \<and> m = Max (set xs)"
  by (cases xs) (auto simp: py_max_def simp flip: Max.set_eq_fold)

lemma py_max_Inl: "py_max xs = Inl e \<longleftrightarrow> xs = [] \<and> e = MaxOfEmpty"
  by (cases xs) (auto simp: py_max_def)

lemma df_latest_Inr:
  "df_latest t = Inr l \<longleftrightarrow> t \<noteq> [] \<and> l = filter (\<lambda>r. Year r = Max (Year ` set t)) t"
  by (auto simp: df_latest_def py_max_Inr py_max_Inl split: sum.split)


text \<open>C22: Computing the latest year (line 22) raises ValueError exactly when the dataset is empty.\<close>

lemma df_latest_Inl: "df_latest t = Inl e \<longleftrightarrow> t = [] \<and> e = MaxOfEmpty"
  by (auto simp: df_latest_def py_max_Inl py_max_def split: sum.split list.split)

lemma df_latest_sub: "df_latest t = Inr l \<Longrightarrow> set l \<subseteq> set t"
  by (auto simp: df_latest_Inr)

lemma groupby_sum_keys: "map fst (groupby_sum key val rs) = sort (remdups (map key rs))"
  by (simp add: groupby_sum_def comp_def)

lemma groupby_sum_strict: "sorted_wrt (<) (map fst (groupby_sum key val rs))"
  by (simp add: groupby_sum_keys strict_sorted_iff)

lemma groupby_sum_key_set: "set (map fst (groupby_sum key val rs)) = key ` set rs"
  by (simp add: groupby_sum_keys)


lemma map_of_groupby_sum:
  "map_of (groupby_sum key val rs) k
     = (if k \<in> key ` set rs then Some (key_sum key val rs k) else None)"
  by (simp add: groupby_sum_def map_of_map_keys)

lemma key_sum_distinct:
  "distinct ks \<Longrightarrow> (\<Sum>k\<leftarrow>ks. key_sum key val rs k)
      = sum_list (map val (filter (\<lambda>r. key r \<in> set ks) rs))"
proof (induction ks)
  case Nil
  then show ?case by simp
next
  case (Cons k ks)
  have "sum_list (map val (filter (\<lambda>r. key r = k \<or> key r \<in> set ks) rs))
          = key_sum key val rs k + sum_list (map val (filter (\<lambda>r. key r \<in> set ks) rs))"
    using Cons.prems by (subst sum_list_filter_disj) (auto simp: key_sum_def)
  with Cons show ?case by simp
qed

lemma groupby_sum_total: "sum_list (map snd (groupby_sum key val rs)) = sum_list (map val rs)"
proof -
  have "sum_list (map snd (groupby_sum key val rs))
          = (\<Sum>k\<leftarrow>sort (remdups (map key rs)). key_sum key val rs k)"
    by (simp add: groupby_sum_def comp_def)
  also have "\<dots> = sum_list (map val (filter (\<lambda>r. key r \<in> set (sort (remdups (map key rs)))) rs))"
    by (rule key_sum_distinct) simp
  also have "\<dots> = sum_list (map val rs)"
    by (simp cong: filter_cong)
  finally show ?thesis .
qed

lemma groupby_sum_Nil [simp]: "groupby_sum key val rs = [] \<longleftrightarrow> rs = []"
proof -
  have "sort (remdups (map key rs)) = [] \<longleftrightarrow> remdups (map key rs) = []"
    by (metis mset_sort mset_zero_iff)
  then show ?thesis by (simp add: groupby_sum_def)
qed

lemma length_groupby_sum: "length (groupby_sum key val rs) = card (key ` set rs)"
  by (simp add: groupby_sum_def length_remdups_card_conv)


lemma groupby_sum_nonneg:
  "(\<forall>r\<in>set rs. 0 \<le> val r) \<Longrightarrow> \<forall>p\<in>set (groupby_sum key val rs). 0 \<le> snd p"
  by (auto simp: groupby_sum_def key_sum_def intro!: sum_list_nonneg)

lemma mset_sort_desc [simp]: "mset (sort_desc xs) = mset xs"
  by (simp add: sort_desc_def)

lemma set_sort_desc [simp]: "set (sort_desc xs) = set xs"
  by (metis mset_sort_desc set_mset_mset)

lemma length_sort_desc [simp]: "length (sort_desc xs) = length xs"
  by (metis mset_sort_desc size_mset)

lemma sum_sort_desc [simp]:
  fixes f :: "'k \<times> int \<Rightarrow> 'b :: comm_monoid_add"
  shows "sum_list (map f (sort_desc xs)) = sum_list (map f xs)"
  by (rule sum_list_mset_eq) simp

lemma sorted_sort_desc: "sorted_wrt (\<lambda>a b. snd b \<le> snd a) (sort_desc xs)"
proof -
  have "sorted (map (\<lambda>p. - snd p) (sort_key (\<lambda>p. - snd p) xs))"
    by (rule sorted_sort_key)
  then show ?thesis by (simp add: sort_desc_def sorted_map)
qed

lemma shares_sum_one:
  "sum_list cs \<noteq> 0 \<Longrightarrow> \<exists>qs. shares cs = map Fin qs \<and> sum_list qs = 1"
  by (rule exI [of _ "map (\<lambda>c. of_int c / of_int (sum_list cs)) cs"])
     (simp add: shares_def fdiv_def sum_list_shares comp_def)

lemma shares_zero_total:
  assumes "\<forall>c\<in>set cs. 0 \<le> c" and "sum_list cs = 0"
  shows "shares cs = replicate (length cs) NaN"
proof -
  have "\<forall>c\<in>set cs. c = 0"
    using assms sum_list_nonneg_eq_0_iff by blast
  then have "shares cs = map (\<lambda>_. NaN) cs"
    by (simp add: shares_def fdiv_def assms(2))
  then show ?thesis by (simp add: map_replicate_const)
qed

lemma length_shares [simp]: "length (shares cs) = length cs"
  by (simp add: shares_def)

end
