(* ===== verification/PyBuiltins.thy ===== *)
theory PyBuiltins
  imports Table "HOL-Library.Sublist"
begin

text \<open>
  The Python built-ins that \<open>extract_lower_bound\<close> (\<open>src/main.py\<close>, lines 7--12)
  calls on an age label: \<open>str.split(sep)\<close> with an explicit separator, and
  \<open>int()\<close> on a string in base 10 with its \<open>ValueError\<close>. A label is a
  sequence of code points below 256 (\<open>char\<close>). \<open>int()\<close> strips Python
  whitespace, accepts one optional sign and decimal digits with single underscores between
  them, and raises on anything else. \<open>py_str\<close> is Python's \<open>str()\<close> of an integer;
  it is not called by the script and serves to state the round trips.
\<close>

section \<open>str.split\<close>

text \<open>
  The scan of CPython's split: left to right, cutting at each occurrence of the separator
  that starts where no earlier occurrence ended. An empty separator makes Python raise;
  the script never passes one, and the model then returns the string uncut.
\<close>

function py_split :: "string \<Rightarrow> string \<Rightarrow> string list" where
  "py_split sep [] = [[]]"
| "py_split sep (c # cs) =
     (if sep \<noteq> [] \<and> take (length sep) (c # cs) = sep
      then [] # py_split sep (drop (length sep) (c # cs))
      else (case py_split sep cs of w # ws \<Rightarrow> (c # w) # ws | [] \<Rightarrow> [[c]]))"
  by pat_completeness auto
termination
  by (relation "measure (\<lambda>(sep, s). length s)") auto

fun py_join :: "string \<Rightarrow> string list \<Rightarrow> string" where
  "py_join sep [] = []"
| "py_join sep [w] = w"
| "py_join sep (w # ws) = w @ sep @ py_join sep ws"

section \<open>int() and str()\<close>

definition is_py_space :: "char \<Rightarrow> bool" where
  "is_py_space c \<longleftrightarrow> of_char c \<in> ({9, 10, 11, 12, 13, 28, 29, 30, 31, 32, 133, 160} :: nat set)"

definition py_strip :: "string \<Rightarrow> string" where
  "py_strip s = rev (dropWhile is_py_space (rev (dropWhile is_py_space s)))"

definition is_digit :: "char \<Rightarrow> bool" where
  "is_digit c \<longleftrightarrow> CHR ''0'' \<le> c \<and> c \<le> CHR ''9''"

definition digit_val :: "char \<Rightarrow> nat" where
  "digit_val c = of_char c - 48"

fun digits_acc :: "nat \<Rightarrow> string \<Rightarrow> nat option" where
  "digits_acc n [] = Some n"
| "digits_acc n (c # cs) =
     (if is_digit c then digits_acc (10 * n + digit_val c) cs
      else if c = CHR ''_'' then
        (case cs of
           d # ds \<Rightarrow> if is_digit d then digits_acc (10 * n + digit_val d) ds else None
         | [] \<Rightarrow> None)
      else None)"

definition py_digits :: "string \<Rightarrow> nat option" where
  "py_digits s = (case s of c # cs \<Rightarrow> if is_digit c then digits_acc (digit_val c) cs else None
                          | [] \<Rightarrow> None)"

definition py_int :: "string \<Rightarrow> error + int" where
  "py_int s =
     (let t = py_strip s;
          body = (case t of c # cs \<Rightarrow> if c = CHR ''-'' \<or> c = CHR ''+'' then cs else t | [] \<Rightarrow> t);
          neg = (case t of c # cs \<Rightarrow> c = CHR ''-'' | [] \<Rightarrow> False)
      in case py_digits body of
           None \<Rightarrow> Inl (InvalidLiteral s)
         | Some n \<Rightarrow> Inr (if neg then - int n else int n))"

text \<open>The value of a run of digits, read left to right as \<open>digits_acc\<close> reads it.\<close>

definition digits_value :: "string \<Rightarrow> nat \<Rightarrow> nat" where
  "digits_value ds n = fold (\<lambda>c m. 10 * m + digit_val c) ds n"

definition digit_char :: "nat \<Rightarrow> char" where
  "digit_char d = char_of (48 + d)"

fun nat_str :: "nat \<Rightarrow> string" where
  "nat_str n = (if n < 10 then [digit_char n] else nat_str (n div 10) @ [digit_char (n mod 10)])"

definition py_str :: "int \<Rightarrow> string" where
  "py_str i = (if i < 0 then CHR ''-'' # nat_str (nat (- i)) else nat_str (nat i))"

declare nat_str.simps [simp del]

section \<open>Properties\<close>

lemma py_split_not_Nil [simp]: "py_split sep s \<noteq> []"
  by (induction sep s rule: py_split.induct) (auto split: list.split)

lemma py_join_Cons_Cons: "py_join sep ((c # w) # ws) = c # py_join sep (w # ws)"
  by (cases ws) simp_all


lemma py_join_py_split: "py_join sep (py_split sep s) = s"
proof (induction sep s rule: py_split.induct)
  case (1 sep)
  then show ?case by simp
next
  case (2 sep c cs)
  show ?case
  proof (cases "sep \<noteq> [] \<and> take (length sep) (c # cs) = sep")
    case True
    then have "py_join sep (py_split sep (c # cs))
                 = sep @ py_join sep (py_split sep (drop (length sep) (c # cs)))"
      by (cases "py_split sep (drop (length sep) (c # cs))") simp_all
    also have "\<dots> = take (length sep) (c # cs) @ drop (length sep) (c # cs)"
      using True "2.IH"(1) by simp
    finally show ?thesis by simp
  next
    case False
    then obtain w ws where ws: "py_split sep cs = w # ws"
      by (cases "py_split sep cs") auto
    have "py_split sep (c # cs) = (c # w) # ws"
      using ws by (simp only: py_split.simps(2) if_not_P [OF False] list.case)
    with ws have "py_join sep (py_split sep (c # cs)) = c # py_join sep (py_split sep cs)"
      by (simp add: py_join_Cons_Cons)
    with False "2.IH"(2) show ?thesis by simp
  qed
qed

lemma prefix_hd_py_split: "prefix (hd (py_split sep s)) s"
proof (induction sep s rule: py_split.induct)
  case (2 sep c cs)
  show ?case
  proof (cases "sep \<noteq> [] \<and> take (length sep) (c # cs) = sep")
    case False
    then obtain w ws where ws: "py_split sep cs = w # ws"
      by (cases "py_split sep cs") auto
    with False "2.IH"(2) show ?thesis by simp
  qed simp
qed simp

lemma py_split_no_sublist:
  "sep \<noteq> [] \<Longrightarrow> \<forall>w\<in>set (py_split sep s). \<not> sublist sep w"
proof (induction sep s rule: py_split.induct)
  case (2 sep c cs)
  show ?case
  proof (cases "take (length sep) (c # cs) = sep")
    case True
    with "2.IH"(1) "2.prems" show ?thesis by simp
  next
    case False
    then obtain w ws where ws: "py_split sep cs = w # ws"
      by (cases "py_split sep cs") auto
    have "prefix w cs" using prefix_hd_py_split [of sep cs] ws by simp
    have "\<not> prefix sep (c # w)"
    proof
      assume "prefix sep (c # w)"
      with \<open>prefix w cs\<close> have "prefix sep (c # cs)"
        using prefix_order.trans by (metis Cons_prefix_Cons)
      then obtain zs where "c # cs = sep @ zs" by (auto simp: prefix_def)
      with False show False by simp
    qed
    with False ws "2.IH"(2) "2.prems" show ?thesis by (auto simp: sublist_Cons_right)
  qed
qed simp

text \<open>C23: For a non-empty separator, str.split(sep) cuts the string at every occurrence of
  the separator: joining the fields with the separator gives back the string, and no field
  contains the separator.\<close>

theorem py_split_fields:
  assumes "sep \<noteq> []"
  shows "py_join sep (py_split sep s) = s \<and> (\<forall>w\<in>set (py_split sep s). \<not> sublist sep w)"
  using py_join_py_split py_split_no_sublist [OF assms] by blast

lemma hd_py_split_prefix:
  assumes "sep \<noteq> []" and "hd sep \<notin> set a"
  shows "hd (py_split sep (a @ sep @ b)) = a"
  using assms(2)
proof (induction a)
  case Nil
  from assms(1) show ?case by (cases sep) simp_all
next
  case (Cons c a)
  from assms(1) Cons.prems have cut: "\<not> (take (length sep) (c # a @ sep @ b) = sep)"
    by (cases sep) auto
  obtain w ws where ws: "py_split sep (a @ sep @ b) = w # ws"
    by (cases "py_split sep (a @ sep @ b)") auto
  with Cons have "w = a" by simp
  with cut ws show ?case by simp
qed

lemma digits_acc_digits:
  "\<forall>c\<in>set ds. is_digit c \<Longrightarrow> digits_acc n ds = Some (digits_value ds n)"
  by (induction ds arbitrary: n) (simp_all add: digits_value_def)

lemma digits_acc_stop:
  "\<forall>c\<in>set ds. is_digit c \<Longrightarrow> \<not> is_digit c \<Longrightarrow> c \<noteq> CHR ''_''
     \<Longrightarrow> digits_acc n (ds @ c # r) = None"
  by (induction ds arbitrary: n) simp_all

lemma digit_char_props:
  assumes "d < 10"
  shows "is_digit (digit_char d)" and "digit_val (digit_char d) = d"
proof -
  have "of_char (digit_char d) = (48 + d :: nat)"
    using assms by (simp add: digit_char_def of_char_of)
  then show "is_digit (digit_char d)" and "digit_val (digit_char d) = d"
    using assms by (simp_all add: is_digit_def digit_val_def less_eq_char_def)
qed

lemma nat_str_props:
  "nat_str n \<noteq> [] \<and> (\<forall>c\<in>set (nat_str n). is_digit c) \<and> digits_value (nat_str n) 0 = n"
proof (induction n rule: nat_str.induct)
  case (1 n)
  show ?case
  proof (cases "n < 10")
    case True
    then show ?thesis
      by (simp add: nat_str.simps [of n] digit_char_props digits_value_def)
  next
    case False
    then have IH: "nat_str (n div 10) \<noteq> [] \<and> (\<forall>c\<in>set (nat_str (n div 10)). is_digit c)
                     \<and> digits_value (nat_str (n div 10)) 0 = n div 10"
      using "1.IH" by simp
    have "digits_value (nat_str (n div 10) @ [digit_char (n mod 10)]) 0
            = 10 * (n div 10) + n mod 10"
      using IH by (simp add: digits_value_def digit_char_props)
    with False IH show ?thesis
      by (simp add: nat_str.simps [of n] digit_char_props)
  qed
qed

lemma is_digit_not_space: "is_digit c \<Longrightarrow> \<not> is_py_space c"
  by (auto simp: is_digit_def is_py_space_def less_eq_char_def)

lemma py_strip_id:
  assumes "\<forall>c\<in>set s. \<not> is_py_space c"
  shows "py_strip s = s"
proof -
  have "dropWhile is_py_space s = s" and "dropWhile is_py_space (rev s) = rev s"
    using assms by (auto intro!: dropWhile_id)
  then show ?thesis by (simp add: py_strip_def)
qed

lemma py_digits_digits:
  "ds \<noteq> [] \<Longrightarrow> \<forall>c\<in>set ds. is_digit c \<Longrightarrow> py_digits ds = Some (digits_value ds 0)"
  by (cases ds) (simp_all add: py_digits_def digits_acc_digits digits_value_def)


lemma py_split_no_sep: "sep \<noteq> [] \<Longrightarrow> hd sep \<notin> set s \<Longrightarrow> py_split sep s = [s]"
proof (induction s)
  case Nil
  then show ?case by simp
next
  case (Cons c s)
  then have "\<not> (take (length sep) (c # s) = sep)"
    by (cases sep) auto
  with Cons show ?case by simp
qed

lemma is_digit_sign [simp]: "\<not> is_digit CHR ''-''" "\<not> is_digit CHR ''+''" "\<not> is_digit CHR ''_''"
  by (simp_all add: is_digit_def less_eq_char_def)

lemma not_space_sign [simp]: "\<not> is_py_space CHR ''-''"
  by (simp add: is_py_space_def)

lemma py_int_py_str: "py_int (py_str i) = Inr i"
proof -
  let ?ds = "nat_str (nat \<bar>i\<bar>)"
  have ds: "?ds \<noteq> []" "\<forall>c\<in>set ?ds. is_digit c" "digits_value ?ds 0 = nat \<bar>i\<bar>"
    using nat_str_props by auto
  then obtain c cs where c: "?ds = c # cs" and "is_digit c"
    by (cases ?ds) auto
  then have sign: "c \<noteq> CHR ''-''" "c \<noteq> CHR ''+''" by auto
  have nosp: "\<forall>c\<in>set ?ds. \<not> is_py_space c"
    using ds(2) is_digit_not_space by blast
  show ?thesis
  proof (cases "i < 0")
    case True
    then have "py_strip (py_str i) = CHR ''-'' # ?ds"
      using nosp by (simp add: py_str_def py_strip_id)
    with True ds show ?thesis by (simp add: py_int_def py_digits_digits)
  next
    case False
    then have "py_strip (py_str i) = ?ds"
      using nosp by (simp add: py_str_def py_strip_id)
    with False ds c sign show ?thesis by (simp add: py_int_def py_digits_digits)
  qed
qed

lemma py_int_unspaced:
  assumes a: "a \<noteq> []" "\<forall>c\<in>set a. is_digit c" and b: "\<forall>c\<in>set b. is_digit c"
  shows "py_int (a @ CHR ''-'' # b) = Inl (InvalidLiteral (a @ CHR ''-'' # b))"
proof -
  obtain c cs where c: "a = c # cs" using a(1) by (cases a) auto
  have "\<forall>x\<in>set (a @ CHR ''-'' # b). \<not> is_py_space x"
    using a(2) b is_digit_not_space by auto
  then have "py_strip (a @ CHR ''-'' # b) = a @ CHR ''-'' # b"
    by (rule py_strip_id)
  moreover have "c \<noteq> CHR ''-''" "c \<noteq> CHR ''+''" "is_digit c"
    using a(2) c by auto
  moreover have "digits_acc (digit_val c) (cs @ CHR ''-'' # b) = None"
    using a(2) c by (intro digits_acc_stop) auto
  ultimately show ?thesis using c by (simp add: py_int_def py_digits_def)
qed

section \<open>Witnesses\<close>

theorem py_split_fields_witness:
  "py_split '' - '' ''10 - 14'' = [''10'', ''14''] \<and> \<not> sublist '' - '' ''10''"
proof -
  have "py_split '' - '' ''10 - 14'' = [''10'', ''14''] " by simp
  then show ?thesis using py_split_fields [of "'' - ''" "''10 - 14''"] by simp
qed

end
