(* ===== verification/AgeGroups.thy ===== *)
theory AgeGroups
  imports PyBuiltins
begin

text \<open>
  Age groups in \<open>src/main.py\<close>: \<open>extract_lower_bound\<close> (lines 7--12), which reads
  the lower bound of a label \<open>"L - U"\<close> and gives 85 to a label without a hyphen;
  the options of the age selector (lines 30--33: the distinct labels of the whole dataset
  in order of first appearance, sorted by their bound, after \<open>"All"\<close>); and the
  by-age table of the latest year (lines 115--119: counts grouped by label, sorted by the
  bound, the bound column dropped). pandas' \<open>Series.apply\<close> raises the first error
  of the function it applies, so both tables are \<open>error + _\<close>.
\<close>

section \<open>Definitions\<close>

definition extract_lower_bound :: "label \<Rightarrow> error + int" where
  "extract_lower_bound age_group =
     (if CHR ''-'' \<in> set age_group then py_int (hd (py_split '' - '' age_group))
      else Inr 85)"

fun series_apply :: "('a \<Rightarrow> error + 'b) \<Rightarrow> 'a list \<Rightarrow> error + 'b list" where
  "series_apply f [] = Inr []"
| "series_apply f (x # xs) =
     (case f x of
        Inl e \<Rightarrow> Inl e
      | Inr y \<Rightarrow> (case series_apply f xs of Inl e \<Rightarrow> Inl e | Inr ys \<Rightarrow> Inr (y # ys)))"

function py_unique :: "'a list \<Rightarrow> 'a list" where
  "py_unique [] = []"
| "py_unique (x # xs) = x # py_unique (filter (\<lambda>y. y \<noteq> x) xs)"
  by pat_completeness auto
termination
  by (relation "measure length") (auto simp: le_imp_less_Suc)

text \<open>\<open>sort_values(by=['Age_Lower_Bound'])\<close> on rows paired with their bound.\<close>

definition sort_by_bound :: "('a \<times> int) list \<Rightarrow> ('a \<times> int) list" where
  "sort_by_bound xs = sort_key snd xs"

definition age_options :: "table \<Rightarrow> error + label list" where
  "age_options t =
     (let ages = py_unique (map Age t) in
      case series_apply extract_lower_bound ages of
        Inl e \<Rightarrow> Inl e
      | Inr bs \<Rightarrow> Inr (''All'' # map fst (sort_by_bound (zip ages bs))))"

definition by_age :: "table \<Rightarrow> error + (label \<times> int) list" where
  "by_age latest =
     (let g = groupby_sum Age Count latest in
      case series_apply extract_lower_bound (map fst g) of
        Inl e \<Rightarrow> Inl e
      | Inr bs \<Rightarrow> Inr (map fst (sort_by_bound (zip g bs))))"

lemmas [table_simps] = extract_lower_bound_def sort_by_bound_def age_options_def by_age_def

section \<open>Properties\<close>

lemma series_apply_Inr_map: "series_apply f xs = Inr ys \<Longrightarrow> map f xs = map Inr ys"
  by (induction xs arbitrary: ys) (auto split: sum.splits)

lemma map_series_apply_Inr: "map f xs = map Inr ys \<Longrightarrow> series_apply f xs = Inr ys"
  by (induction xs arbitrary: ys) (auto simp: Cons_eq_map_conv)

lemma series_apply_Inr: "series_apply f xs = Inr ys \<longleftrightarrow> map f xs = map Inr ys"
  using series_apply_Inr_map map_series_apply_Inr by blast

lemma series_apply_Inr_elem:
  "series_apply f xs = Inr ys \<Longrightarrow> x \<in> set xs \<Longrightarrow> \<exists>y. f x = Inr y"
  by (induction xs arbitrary: ys) (auto split: sum.splits)

lemma series_apply_ok:
  "(\<forall>x\<in>set xs. \<exists>y. f x = Inr y) \<Longrightarrow> \<exists>ys. series_apply f xs = Inr ys"
  by (induction xs) auto

lemma series_apply_Inl: "series_apply f xs = Inl e \<Longrightarrow> \<exists>x\<in>set xs. f x = Inl e"
  by (induction xs) (auto split: sum.splits)

lemma series_apply_map: "series_apply f (map h xs) = series_apply (f \<circ> h) xs"
proof (induction xs)
  case Nil
  then show ?case by simp
next
  case (Cons x xs)
  then show ?case by (simp only: list.map series_apply.simps comp_apply)
qed

lemma series_apply_length: "series_apply f xs = Inr ys \<Longrightarrow> length ys = length xs"
  by (auto simp: series_apply_Inr dest: map_eq_imp_length_eq)

lemma series_apply_zip:
  "series_apply f xs = Inr ys \<Longrightarrow> \<forall>z\<in>set (zip xs ys). f (fst z) = Inr (snd z)"
proof (induction xs arbitrary: ys)
  case Nil
  then show ?case by simp
next
  case (Cons x xs)
  then show ?case by (auto split: sum.splits)
qed

lemma set_py_unique [simp]: "set (py_unique xs) = set xs"
  by (induction xs rule: py_unique.induct) auto

lemma distinct_py_unique: "distinct (py_unique xs)"
  by (induction xs rule: py_unique.induct) auto

text \<open>
  Sorting rows by the bound the applied function gave them: the result is a permutation of
  the rows, and reading the bounds again gives a sorted list.
\<close>

lemma sort_by_bound_perm:
  assumes "series_apply f xs = Inr bs"
  shows "mset (map fst (sort_by_bound (zip xs bs))) = mset xs"
proof -
  have "mset (map fst (sort_by_bound (zip xs bs))) = image_mset fst (mset (zip xs bs))"
    by (simp add: sort_by_bound_def)
  also have "\<dots> = mset (map fst (zip xs bs))"
    by simp
  also have "map fst (zip xs bs) = xs"
    using series_apply_length [OF assms] by simp
  finally show ?thesis .
qed

lemma sort_by_bound_sorted:
  assumes "series_apply f xs = Inr bs"
  shows "\<exists>cs. map f (map fst (sort_by_bound (zip xs bs))) = map Inr cs \<and> sorted cs"
proof -
  let ?zs = "sort_key snd (zip xs bs)"
  have "\<forall>z\<in>set ?zs. f (fst z) = Inr (snd z)"
    using series_apply_zip [OF assms] by simp
  then have "map f (map fst ?zs) = map Inr (map snd ?zs)"
    by simp
  moreover have "sorted (map snd ?zs)"
    by (rule sorted_sort_key)
  ultimately show ?thesis
    unfolding sort_by_bound_def by blast
qed

lemma hd_minus_space [simp]: "hd '' - '' = CHR '' ''"
  by simp

lemma space_notin_py_str: "CHR '' '' \<notin> set (py_str L)"
proof -
  have "\<forall>c\<in>set (nat_str n). is_digit c" for n
    using nat_str_props by blast
  moreover have "\<not> is_digit CHR '' ''"
    by (simp add: is_digit_def less_eq_char_def)
  ultimately show ?thesis
    by (auto simp: py_str_def)
qed


lemma space_not_digit [simp]: "\<not> is_digit CHR '' ''"
  by (simp add: is_digit_def less_eq_char_def)


text \<open>C15: For every integer L and suffix U, extract_lower_bound of the label str(L) + ' - ' + U is L: str.split and int() give back the printed lower bound.\<close>

theorem extract_lower_bound_range: "extract_lower_bound (py_str L @ '' - '' @ U) = Inr L"
proof -
  have "CHR ''-'' \<in> set (py_str L @ '' - '' @ U)" by simp
  moreover have "hd (py_split '' - '' (py_str L @ '' - '' @ U)) = py_str L"
    by (rule hd_py_split_prefix) (simp_all add: space_notin_py_str)
  ultimately show ?thesis by (simp add: extract_lower_bound_def py_int_py_str)
qed


text \<open>C16: A label without a hyphen (such as 85+) has lower bound 85.\<close>

theorem extract_lower_bound_open: "CHR ''-'' \<notin> set a \<Longrightarrow> extract_lower_bound a = Inr 85"
  by (simp add: extract_lower_bound_def)


text \<open>C17: A label of two digit runs joined by a bare hyphen (such as 40-44) makes extract_lower_bound raise ValueError from int(), although the specification says every label has a bound.\<close>

theorem extract_lower_bound_unspaced:
  assumes "a \<noteq> []" "\<forall>c\<in>set a. is_digit c" "\<forall>c\<in>set b. is_digit c"
  shows "extract_lower_bound (a @ CHR ''-'' # b) = Inl (InvalidLiteral (a @ CHR ''-'' # b))"
proof -
  have "CHR '' '' \<notin> set (a @ CHR ''-'' # b)"
    using assms(2,3) by auto
  then have "py_split '' - '' (a @ CHR ''-'' # b) = [a @ CHR ''-'' # b]"
    by (intro py_split_no_sep) simp_all
  then show ?thesis
    using py_int_unspaced [OF assms] by (simp add: extract_lower_bound_def)
qed

lemma by_age_Inr:
  assumes "by_age l = Inr rows"
  obtains bs where "series_apply (extract_lower_bound \<circ> fst) (groupby_sum Age Count l) = Inr bs"
    and "rows = map fst (sort_by_bound (zip (groupby_sum Age Count l) bs))"
  using assms by (auto simp: by_age_def Let_def series_apply_map split: sum.splits)


lemma by_age_defined:
  assumes "\<forall>r\<in>set l. \<exists>b. extract_lower_bound (Age r) = Inr b"
  shows "\<exists>rows. by_age l = Inr rows"
proof -
  have "\<forall>a\<in>set (map fst (groupby_sum Age Count l)). \<exists>b. extract_lower_bound a = Inr b"
    using assms by (simp only: groupby_sum_key_set) blast
  then obtain bs where "series_apply extract_lower_bound (map fst (groupby_sum Age Count l)) = Inr bs"
    using series_apply_ok by blast
  then show ?thesis by (simp add: by_age_def)
qed

lemma by_age_sum:
  assumes "by_age l = Inr rows"
  shows "sum_list (map snd rows) = sum_list (map Count l)"
proof (rule by_age_Inr [OF assms])
  fix bs
  assume ap: "series_apply (extract_lower_bound \<circ> fst) (groupby_sum Age Count l) = Inr bs"
    and rows: "rows = map fst (sort_by_bound (zip (groupby_sum Age Count l) bs))"
  have "mset rows = mset (groupby_sum Age Count l)"
    using sort_by_bound_perm [OF ap] rows by (simp only:)
  then have "sum_list (map snd rows) = sum_list (map snd (groupby_sum Age Count l))"
    by (rule sum_list_mset_eq)
  then show ?thesis by (simp add: groupby_sum_total)
qed

text \<open>
  Applying \<open>extract_lower_bound\<close> to every label of a table succeeds exactly when
  every label has a bound: the age selector's options exist then, and the by-age table of
  any sub-table (the latest year's) is computed.
\<close>

lemma age_options_labels:
  assumes "age_options t = Inr opts"
  shows "\<forall>r\<in>set t. \<exists>b. extract_lower_bound (Age r) = Inr b"
proof
  fix r assume r: "r \<in> set t"
  obtain bs where "series_apply extract_lower_bound (py_unique (map Age t)) = Inr bs"
    using assms by (auto simp: age_options_def Let_def split: sum.splits)
  moreover have "Age r \<in> set (py_unique (map Age t))"
    using r by simp
  ultimately show "\<exists>b. extract_lower_bound (Age r) = Inr b"
    by (rule series_apply_Inr_elem)
qed

lemma age_options_defined:
  "\<forall>r\<in>set t. \<exists>b. extract_lower_bound (Age r) = Inr b \<Longrightarrow> \<exists>opts. age_options t = Inr opts"
proof -
  assume "\<forall>r\<in>set t. \<exists>b. extract_lower_bound (Age r) = Inr b"
  then have "\<forall>a\<in>set (py_unique (map Age t)). \<exists>b. extract_lower_bound a = Inr b"
    by simp
  then obtain bs where "series_apply extract_lower_bound (py_unique (map Age t)) = Inr bs"
    using series_apply_ok by blast
  then show ?thesis by (simp add: age_options_def)
qed

text \<open>C20: If every age label of the table has a lower bound, the by-age table is computed without error.\<close>

theorem by_age_ok:
  assumes "\<forall>r\<in>set l. \<exists>b. extract_lower_bound (Age r) = Inr b"
  shows "\<exists>rows. by_age l = Inr rows"
  using assms by (rule by_age_defined)


text \<open>C18: The by-age table (lines 115-119) lists its age groups in ascending order of their lower bound.\<close>

theorem by_age_sorted:
  "by_age l = Inr rows \<Longrightarrow> \<exists>bs. map extract_lower_bound (map fst rows) = map Inr bs \<and> sorted bs"
proof (erule by_age_Inr)
  fix bs
  assume ap: "series_apply (extract_lower_bound \<circ> fst) (groupby_sum Age Count l) = Inr bs"
    and rows: "rows = map fst (sort_by_bound (zip (groupby_sum Age Count l) bs))"
  from sort_by_bound_sorted [OF ap] rows
  show ?thesis by (simp add: comp_assoc)
qed


text \<open>C19: The by-age table is a permutation of the latest year's counts grouped by age label: no group lost, none duplicated, counts unchanged.\<close>

theorem by_age_perm: "by_age l = Inr rows \<Longrightarrow> mset rows = mset (groupby_sum Age Count l)"
proof (erule by_age_Inr)
  fix bs
  assume ap: "series_apply (extract_lower_bound \<circ> fst) (groupby_sum Age Count l) = Inr bs"
    and rows: "rows = map fst (sort_by_bound (zip (groupby_sum Age Count l) bs))"
  from sort_by_bound_perm [OF ap] rows
  show ?thesis by (simp only:)
qed


text \<open>C21: The age selector offers All followed by each distinct age label of the dataset exactly once, in ascending order of lower bound.\<close>

theorem age_options_spec:
  assumes "age_options t = Inr opts"
  shows "hd opts = ''All'' \<and> distinct (tl opts) \<and> set (tl opts) = Age ` set t
         \<and> (\<exists>bs. map extract_lower_bound (tl opts) = map Inr bs \<and> sorted bs)"
proof -
  let ?ages = "py_unique (map Age t)"
  obtain bs where ap: "series_apply extract_lower_bound ?ages = Inr bs"
    and opts: "opts = ''All'' # map fst (sort_by_bound (zip ?ages bs))"
    using assms by (auto simp: age_options_def Let_def split: sum.splits)
  have perm: "mset (tl opts) = mset ?ages"
    using sort_by_bound_perm [OF ap] opts by simp
  then have "distinct (tl opts)"
    using distinct_py_unique mset_eq_imp_distinct_iff by blast
  moreover have "set (tl opts) = Age ` set t"
    using perm by (metis set_mset_mset set_py_unique set_map)
  moreover have "\<exists>bs. map extract_lower_bound (tl opts) = map Inr bs \<and> sorted bs"
    using sort_by_bound_sorted [OF ap] opts by simp
  ultimately show ?thesis using opts by simp
qed

section \<open>Witnesses\<close>

lemma lb_ex: "extract_lower_bound ''10 - 14'' = Inr 10" "extract_lower_bound ''0 - 4'' = Inr 0"
  "extract_lower_bound ''85+'' = Inr 85" by code_simp+

theorem extract_lower_bound_open_witness:
  "CHR ''-'' \<notin> set ''85+'' \<and> extract_lower_bound ''85+'' = Inr 85"
  using extract_lower_bound_open [of "''85+''"] by simp

theorem extract_lower_bound_unspaced_witness:
  "extract_lower_bound ''40-44'' = Inl (InvalidLiteral ''40-44'')"
proof -
  have h: "''40'' \<noteq> []" "\<forall>c\<in>set ''40''. is_digit c" "\<forall>c\<in>set ''44''. is_digit c"
    by (simp_all add: is_digit_def less_eq_char_def)
  show ?thesis using extract_lower_bound_unspaced [OF h] by simp
qed

theorem by_age_ok_witness: "\<exists>rows. by_age example_ages = Inr rows"
proof -
  have h: "\<forall>r\<in>set example_ages. \<exists>b. extract_lower_bound (Age r) = Inr b"
    using lb_ex by (auto simp: example_ages_def)
  show ?thesis by (rule by_age_ok [OF h])
qed

theorem by_age_sorted_witness:
  "by_age example_ages = Inr [(''0 - 4'', 3), (''10 - 14'', 3), (''85+'', 7)]
   \<and> (\<exists>bs. map extract_lower_bound (map fst [(''0 - 4'', 3::int), (''10 - 14'', 3), (''85+'', 7)])
            = map Inr bs \<and> sorted bs)"
proof -
  have h: "by_age example_ages = Inr [(''0 - 4'', 3), (''10 - 14'', 3), (''85+'', 7)]"
    by code_simp
  show ?thesis using h by_age_sorted [OF h] by simp
qed

theorem age_options_spec_witness:
  "age_options example_ages = Inr [''All'', ''0 - 4'', ''10 - 14'', ''85+'']
   \<and> distinct (tl [''All'', ''0 - 4'', ''10 - 14'', ''85+''])"
proof -
  have h: "age_options example_ages = Inr [''All'', ''0 - 4'', ''10 - 14'', ''85+'']"
    by code_simp
  show ?thesis using h age_options_spec [OF h] by simp
qed

theorem by_age_perm_witness:
  "mset [(''0 - 4'', 3), (''10 - 14'', 3), (''85+'', 7)] = mset (groupby_sum Age Count example_ages)"
proof -
  have h: "by_age example_ages = Inr [(''0 - 4'', 3), (''10 - 14'', 3), (''85+'', 7)]"
    by code_simp
  show ?thesis using by_age_perm [OF h] .
qed

end
