(* ===== verification/TopTypes.thy ===== *)
theory TopTypes
  imports Table
begin

text \<open>
  The two charts of cancer types in \<open>src/main.py\<close>. The pie of the latest year
  (lines 35--63): the rows of the latest year are filtered by the gender and age
  selectors (lines 35--39), grouped by type, sorted by count, the first nine kept and the
  rest folded into one row \<open>"Other"\<close> (lines 41--50); the column \<open>Sort\<close> gives
  \<open>"Other"\<close> a key one below the smallest count (line 52) and \<open>Percentage\<close> is the
  share of the chart's total (lines 54--55); Altair draws the slices in descending
  \<open>Sort\<close> (line 60). The bar chart by type (lines 130--133) keeps twenty types, counts
  the rows of every other type into \<open>"Other"\<close>, sorts by count and moves the rows named
  \<open>"Other"\<close> to the end.
\<close>

section \<open>Definitions\<close>

definition latest_gender_age :: "table \<Rightarrow> string \<Rightarrow> string \<Rightarrow> table" where
  "latest_gender_age latest gender age =
     (let by_gender =
        (if gender \<noteq> ''All'' then filter (\<lambda>r. gender_name (Gender r) = gender) latest else latest)
      in if age \<noteq> ''All'' then filter (\<lambda>r. Age r = age) latest else by_gender)"

record chart_row =
  RName :: label
  RCount :: int
  RSort :: int
  RPct :: pct

definition pie_chart :: "table \<Rightarrow> chart_row list" where
  "pie_chart t =
     (let cancer_type = sort_desc (groupby_sum Name Count t);
          top10 = take 9 cancer_type;
          other_count = sum_list (map snd (drop 9 cancer_type));
          chart = top10 @ [(''Other'', other_count)];
          min_count = min_list (map snd chart);
          total_count = sum_list (map snd chart)
      in map (\<lambda>(n, c). \<lparr>RName = n, RCount = c,
                         RSort = (if n = ''Other'' then min_count - 1 else c),
                         RPct = fdiv c total_count\<rparr>) chart)"

definition pie_order :: "chart_row list \<Rightarrow> chart_row list" where
  "pie_order rows = sort_key (\<lambda>r. - RSort r) rows"

definition type_chart :: "table \<Rightarrow> (label \<times> int) list" where
  "type_chart latest =
     (let top_types = take 20 (sort_desc (groupby_sum Name Count latest));
          other_count =
            sum_list (map Count (filter (\<lambda>r. Name r \<notin> set (map fst top_types)) latest));
          df_type = sort_desc (top_types @ [(''Other'', other_count)])
      in filter (\<lambda>p. fst p \<noteq> ''Other'') df_type @ filter (\<lambda>p. fst p = ''Other'') df_type)"

text \<open>
  The filter the specification describes (section 4.1, operation 3): the two selectors
  combined by conjunction. It is not code of the repository; the lemmas below compare
  the code's filter with it.
\<close>

definition filter_latest_spec :: "table \<Rightarrow> string \<Rightarrow> string \<Rightarrow> table" where
  "filter_latest_spec latest gender age =
     filter (\<lambda>r. (gender = ''All'' \<or> gender_name (Gender r) = gender)
                 \<and> (age = ''All'' \<or> Age r = age)) latest"

lemmas [table_simps] = latest_gender_age_def pie_chart_def pie_order_def type_chart_def

section \<open>Properties of the pie chart\<close>

lemma sort_desc_groupby_snd:
  "p \<in> set (sort_desc (groupby_sum key val rs)) \<Longrightarrow> snd p = key_sum key val rs (fst p)"
  by (auto simp: groupby_sum_def)

lemma distinct_sort_desc_groupby: "distinct (map fst (sort_desc (groupby_sum key val rs)))"
proof -
  have "mset (map fst (sort_desc (groupby_sum key val rs))) = mset (map fst (groupby_sum key val rs))"
    by simp
  moreover have "distinct (map fst (groupby_sum key val rs))"
    by (simp add: groupby_sum_keys)
  ultimately show ?thesis using mset_eq_imp_distinct_iff by blast
qed

lemma sum_take_sort_desc_groupby:
  fixes key :: "'r \<Rightarrow> 'k :: linorder" and val :: "'r \<Rightarrow> int" and rs :: "'r list"
  defines "cs \<equiv> sort_desc (groupby_sum key val rs)"
  shows "sum_list (map snd (take n cs))
           = sum_list (map val (filter (\<lambda>r. key r \<in> set (map fst (take n cs))) rs))"
proof -
  have "map snd (take n cs) = map (key_sum key val rs) (map fst (take n cs))"
    by (auto simp: cs_def dest: in_set_takeD sort_desc_groupby_snd)
  then have "sum_list (map snd (take n cs)) = (\<Sum>k\<leftarrow>map fst (take n cs). key_sum key val rs k)"
    by (simp only:)
  also have "\<dots> = sum_list (map val (filter (\<lambda>r. key r \<in> set (map fst (take n cs))) rs))"
  proof (rule key_sum_distinct)
    show "distinct (map fst (take n cs))"
      using distinct_sort_desc_groupby [of key val rs] by (simp add: cs_def take_map [symmetric])
  qed
  finally show ?thesis .
qed

lemma sum_drop_sort_desc_groupby:
  fixes key :: "'r \<Rightarrow> 'k :: linorder" and val :: "'r \<Rightarrow> int" and rs :: "'r list"
  defines "cs \<equiv> sort_desc (groupby_sum key val rs)"
  shows "sum_list (map snd (drop n cs))
           = sum_list (map val (filter (\<lambda>r. key r \<notin> set (map fst (take n cs))) rs))"
proof -
  let ?P = "\<lambda>r. key r \<in> set (map fst (take n cs))"
  have "sum_list (map snd (take n cs)) + sum_list (map snd (drop n cs)) = sum_list (map val rs)"
    by (simp add: sum_list_map_take_drop cs_def groupby_sum_total)
  moreover have "sum_list (map val (filter ?P rs)) + sum_list (map val (filter (\<lambda>r. \<not> ?P r) rs))
                   = sum_list (map val rs)"
    by (rule sum_list_filter_compl)
  ultimately show ?thesis
    using sum_take_sort_desc_groupby [where key = key and val = val and rs = rs and n = n]
    by (simp add: cs_def)
qed

lemma pie_chart_pairs:
  "map (\<lambda>r. (RName r, RCount r)) (pie_chart t)
     = take 9 (sort_desc (groupby_sum Name Count t))
       @ [(''Other'', sum_list (map snd (drop 9 (sort_desc (groupby_sum Name Count t)))))]"
  by (simp add: pie_chart_def Let_def comp_def case_prod_beta)

lemma pie_chart_counts:
  "map RCount (pie_chart t)
     = map snd (take 9 (sort_desc (groupby_sum Name Count t)))
       @ [sum_list (map snd (drop 9 (sort_desc (groupby_sum Name Count t))))]"
  by (simp add: pie_chart_def Let_def comp_def case_prod_beta)

lemma pie_chart_names:
  "map RName (pie_chart t)
     = map fst (take 9 (sort_desc (groupby_sum Name Count t))) @ [''Other'']"
  by (simp add: pie_chart_def Let_def comp_def case_prod_beta)

lemma pie_chart_pct: "map RPct (pie_chart t) = shares (map RCount (pie_chart t))"
  by (simp add: pie_chart_def Let_def comp_def case_prod_beta shares_def)

lemma pie_chart_sort:
  "r \<in> set (pie_chart t) \<Longrightarrow>
     RSort r = (if RName r = ''Other'' then min_list (map RCount (pie_chart t)) - 1 else RCount r)"
  by (auto simp: pie_chart_def Let_def comp_def case_prod_beta)

lemma pie_chart_not_Nil [simp]: "pie_chart t \<noteq> []"
  by (simp add: pie_chart_def Let_def)

lemma pie_chart_other_below:
  assumes "a \<in> set (pie_chart t)" "b \<in> set (pie_chart t)"
    and "RName a = ''Other''" "RName b \<noteq> ''Other''"
  shows "RSort a < RSort b"
proof -
  have "min_list (map RCount (pie_chart t)) \<le> RCount b"
    using assms(2) by (simp add: min_list_Min)
  then show ?thesis
    using assms pie_chart_sort by simp
qed


text \<open>C1: The pie of the top cancer types (lines 41-55) conserves the filtered table's total count: its rows, Other included, sum to the sum of Count over the input.\<close>

theorem pie_chart_total: "sum_list (map RCount (pie_chart t)) = sum_list (map Count t)"
proof -
  have "sum_list (map RCount (pie_chart t))
          = sum_list (map snd (sort_desc (groupby_sum Name Count t)))"
    by (simp add: pie_chart_counts sum_list_map_take_drop flip: add.assoc)
  then show ?thesis by (simp add: groupby_sum_total)
qed


text \<open>C2: In the order Altair draws the slices (Sort descending, line 60) every row named Other comes after every other row, and the Other row is always present.\<close>

theorem pie_order_other_last:
  "\<exists>xs ys. pie_order (pie_chart t) = xs @ ys \<and> (\<forall>r\<in>set xs. RName r \<noteq> ''Other'')
           \<and> ys \<noteq> [] \<and> (\<forall>r\<in>set ys. RName r = ''Other'')"
proof -
  let ?zs = "pie_order (pie_chart t)"
  let ?P = "\<lambda>r. RName r = ''Other''"
  have set_zs: "set ?zs = set (pie_chart t)"
    by (simp add: pie_order_def)
  have "sorted (map (\<lambda>r. - RSort r) ?zs)"
    by (simp add: pie_order_def)
  moreover have "\<forall>a\<in>set ?zs. \<forall>b\<in>set ?zs. ?P a \<longrightarrow> \<not> ?P b \<longrightarrow> - RSort b < - RSort a"
    using pie_chart_other_below by (simp add: set_zs)
  ultimately have split: "filter (\<lambda>r. \<not> ?P r) ?zs @ filter ?P ?zs = ?zs"
    by (rule sorted_partition)
  have "''Other'' \<in> set (map RName (pie_chart t))"
    by (simp only: pie_chart_names) simp
  then obtain w where "w \<in> set ?zs" "?P w"
    by (auto simp: set_zs)
  then have ne: "filter ?P ?zs \<noteq> []"
    by (auto simp: filter_empty_conv)
  show ?thesis
  proof (intro exI conjI)
    show "?zs = filter (\<lambda>r. \<not> ?P r) ?zs @ filter ?P ?zs"
      using split by simp
    show "\<forall>r\<in>set (filter (\<lambda>r. \<not> ?P r) ?zs). RName r \<noteq> ''Other''" by simp
    show "filter ?P ?zs \<noteq> []" by (rule ne)
    show "\<forall>r\<in>set (filter ?P ?zs). RName r = ''Other''" by simp
  qed
qed


text \<open>C10: The pie has min(9, number of distinct types) + 1 rows: at most 10, and always the Other row.\<close>

theorem pie_chart_length: "length (pie_chart t) = min 9 (card (Name ` set t)) + 1"
proof -
  have "length (pie_chart t) = length (map RCount (pie_chart t))" by simp
  also have "\<dots> = min 9 (card (Name ` set t)) + 1"
    by (simp only: pie_chart_counts) (simp add: length_groupby_sum)
  finally show ?thesis .
qed


text \<open>C6: Every cancer type kept in the pie has a count at least as large as any type folded into Other (the kept rows are the largest groups).\<close>

theorem pie_chart_top:
  assumes "r \<in> set (butlast (pie_chart t))" and "n \<in> Name ` set t"
    and "n \<notin> RName ` set (butlast (pie_chart t))"
  shows "key_sum Name Count t n \<le> RCount r"
proof -
  let ?cs = "sort_desc (groupby_sum Name Count t)"
  have pairs: "map (\<lambda>r. (RName r, RCount r)) (butlast (pie_chart t)) = take 9 ?cs"
    using pie_chart_pairs [of t] by (simp add: map_butlast)
  then have names: "RName ` set (butlast (pie_chart t)) = fst ` set (take 9 ?cs)"
    by (metis (no_types, lifting) fst_conv image_cong image_image list.set_map)
  have "(RName r, RCount r) \<in> set (map (\<lambda>r. (RName r, RCount r)) (butlast (pie_chart t)))"
    using assms(1) by force
  then have top: "(RName r, RCount r) \<in> set (take 9 ?cs)"
    by (simp only: pairs)
  have "n \<in> fst ` set ?cs"
    using assms(2) groupby_sum_key_set [of Name Count t] by simp
  then obtain c where nc: "(n, c) \<in> set ?cs" by force
  have "(n, c) \<notin> set (take 9 ?cs)"
    using assms(3) names by force
  moreover have "set ?cs = set (take 9 ?cs) \<union> set (drop 9 ?cs)"
    by (metis append_take_drop_id set_append)
  ultimately have rest: "(n, c) \<in> set (drop 9 ?cs)"
    using nc by blast
  have "sorted_wrt (\<lambda>a b. snd b \<le> snd a) (take 9 ?cs @ drop 9 ?cs)"
    using sorted_sort_desc by simp
  then have "\<forall>x\<in>set (take 9 ?cs). \<forall>y\<in>set (drop 9 ?cs). snd y \<le> snd x"
    by (simp only: sorted_wrt_append) (elim conjE)
  then have "snd (n, c) \<le> snd (RName r, RCount r)"
    using top rest by blast
  then have "c \<le> RCount r"
    by simp
  moreover have "c = key_sum Name Count t n"
    using nc sort_desc_groupby_snd by fastforce
  ultimately show ?thesis by simp
qed


text \<open>C7: The Other slice counts exactly the latest-year rows whose cancer type is not among the kept slices.\<close>

theorem pie_chart_other_count:
  "RCount (last (pie_chart t))
     = sum_list (map Count (filter (\<lambda>r. Name r \<notin> RName ` set (butlast (pie_chart t))) t))"
proof -
  let ?cs = "sort_desc (groupby_sum Name Count t)"
  have "RName ` set (butlast (pie_chart t)) = set (map fst (take 9 ?cs))"
    using pie_chart_names [of t] by (metis butlast_snoc list.set_map map_butlast)
  moreover have "RCount (last (pie_chart t)) = sum_list (map snd (drop 9 ?cs))"
    using pie_chart_counts [of t] by (metis last_map last_snoc pie_chart_not_Nil)
  ultimately show ?thesis
    by (simp add: sum_drop_sort_desc_groupby)
qed


text \<open>C8: When the filtered total is non-zero, every Percentage of the pie is finite and the percentages sum to 1.\<close>

theorem pie_chart_shares:
  "sum_list (map Count t) \<noteq> 0 \<Longrightarrow> \<exists>qs. map RPct (pie_chart t) = map Fin qs \<and> sum_list qs = 1"
  unfolding pie_chart_pct
  by (rule shares_sum_one) (simp add: pie_chart_counts sum_list_map_take_drop groupby_sum_total
        flip: add.assoc)


text \<open>C9: When the filtered table has non-negative counts summing to zero (an empty filter result included), the pie still has rows (at least the Other row) and every Percentage is NaN (0/0 in numpy).\<close>

theorem pie_chart_zero_total:
  assumes "\<forall>r\<in>set t. 0 \<le> Count r" and "sum_list (map Count t) = 0"
  shows "pie_chart t \<noteq> [] \<and> (\<forall>r\<in>set (pie_chart t). RPct r = NaN)"
proof -
  have tot: "sum_list (map RCount (pie_chart t)) = 0"
    using assms(2) by (simp add: pie_chart_counts sum_list_map_take_drop groupby_sum_total
        flip: add.assoc)
  have "\<forall>p\<in>set (groupby_sum Name Count t). 0 \<le> snd p"
    using assms(1) by (rule groupby_sum_nonneg)
  then have nn: "\<forall>p\<in>set (sort_desc (groupby_sum Name Count t)). 0 \<le> snd p"
    by simp
  have "\<forall>c\<in>set (map RCount (pie_chart t)). 0 \<le> c"
  proof
    fix c assume "c \<in> set (map RCount (pie_chart t))"
    then have "c = sum_list (map snd (drop 9 (sort_desc (groupby_sum Name Count t))))
                \<or> c \<in> snd ` set (take 9 (sort_desc (groupby_sum Name Count t)))"
      by (simp add: pie_chart_counts)
    then show "0 \<le> c"
    proof
      assume c: "c = sum_list (map snd (drop 9 (sort_desc (groupby_sum Name Count t))))"
      have "\<forall>p\<in>set (drop 9 (sort_desc (groupby_sum Name Count t))). 0 \<le> snd p"
      proof
        fix p assume "p \<in> set (drop 9 (sort_desc (groupby_sum Name Count t)))"
        then have "p \<in> set (sort_desc (groupby_sum Name Count t))" by (rule in_set_dropD)
        with nn show "0 \<le> snd p" by blast
      qed
      then show ?thesis
        unfolding c by (rule sum_list_map_nonneg)
    next
      assume "c \<in> snd ` set (take 9 (sort_desc (groupby_sum Name Count t)))"
      then obtain p where "p \<in> set (take 9 (sort_desc (groupby_sum Name Count t)))" "c = snd p"
        by blast
      then have "p \<in> set (sort_desc (groupby_sum Name Count t))" "c = snd p"
        by (auto dest: in_set_takeD)
      with nn show ?thesis by blast
    qed
  qed
  then have "map RPct (pie_chart t) = replicate (length (pie_chart t)) NaN"
    using shares_zero_total [OF _ tot] by (simp add: pie_chart_pct)
  then have "set (map RPct (pie_chart t)) \<subseteq> {NaN}"
    by (simp add: set_replicate_conv_if)
  then show ?thesis
    by auto
qed


text \<open>C3: When an age group is selected, the filter of lines 35-39 keeps exactly the latest-year rows of that age group: the gender selection has no effect (line 39 filters df_latest, not the gender-filtered frame).\<close>

theorem latest_gender_age_drops_gender:
  "age \<noteq> ''All'' \<Longrightarrow> latest_gender_age l gender age = filter (\<lambda>r. Age r = age) l"
  by (simp add: latest_gender_age_def)


text \<open>C5: When at least one selector is All, the filter of lines 35-39 equals the specification's conjunction of the gender and age filters.\<close>

theorem latest_gender_age_refines:
  "gender = ''All'' \<or> age = ''All'' \<Longrightarrow>
     latest_gender_age l gender age = filter_latest_spec l gender age"
  by (auto simp: latest_gender_age_def filter_latest_spec_def)


text \<open>C4: With both selectors set, the filter of lines 35-39 agrees with the specification's conjunction exactly when every latest-year row of the selected age group already has the selected gender; as soon as one row of that age group has the other gender, the code shows it and the specification does not.\<close>

theorem latest_gender_age_diverges:
  assumes "gender \<noteq> ''All''" and "age \<noteq> ''All''"
  shows "latest_gender_age l gender age = filter_latest_spec l gender age
         \<longleftrightarrow> (\<forall>r\<in>set l. Age r = age \<longrightarrow> gender_name (Gender r) = gender)"
proof -
  have "filter_latest_spec l gender age
          = filter (\<lambda>r. gender_name (Gender r) = gender) (filter (\<lambda>r. Age r = age) l)"
    using assms by (simp add: filter_latest_spec_def filter_filter conj_commute)
  moreover have "latest_gender_age l gender age = filter (\<lambda>r. Age r = age) l"
    using assms(2) by (simp add: latest_gender_age_def)
  moreover have "filter (\<lambda>r. gender_name (Gender r) = gender) (filter (\<lambda>r. Age r = age) l)
                   = filter (\<lambda>r. Age r = age) l
                 \<longleftrightarrow> (\<forall>r\<in>set l. Age r = age \<longrightarrow> gender_name (Gender r) = gender)"
    by (simp only: filter_id_conv) auto
  ultimately show ?thesis by (simp only: eq_commute [of "filter (\<lambda>r. Age r = age) l"])
qed

section \<open>Properties of the bar chart by type\<close>

lemma type_chart_df:
  "type_chart l =
     (let df = sort_desc (take 20 (sort_desc (groupby_sum Name Count l))
                 @ [(''Other'', sum_list (map snd (drop 20 (sort_desc (groupby_sum Name Count l)))))])
      in filter (\<lambda>p. fst p \<noteq> ''Other'') df @ filter (\<lambda>p. fst p = ''Other'') df)"
  by (simp add: type_chart_def Let_def sum_drop_sort_desc_groupby)


text \<open>C13: The Other count of line 131, computed by excluding the rows whose type is among the top 20 (isin), equals the sum of the grouped counts after the first 20, the fold of the pie chart.\<close>

theorem type_chart_fold:
  "type_chart l =
     (let cs = sort_desc (groupby_sum Name Count l);
          df = sort_desc (take 20 cs @ [(''Other'', sum_list (map snd (drop 20 cs)))])
      in filter (\<lambda>p. fst p \<noteq> ''Other'') df @ filter (\<lambda>p. fst p = ''Other'') df)"
  by (simp add: type_chart_def Let_def sum_drop_sort_desc_groupby)


lemma type_chart_sum: "sum_list (map snd (type_chart l)) = sum_list (map Count l)"
proof -
  let ?cs = "sort_desc (groupby_sum Name Count l)"
  let ?df = "sort_desc (take 20 ?cs @ [(''Other'', sum_list (map snd (drop 20 ?cs)))])"
  have "sum_list (map snd (type_chart l)) = sum_list (map snd ?df)"
    unfolding type_chart_df Let_def
    by (simp add: sum_list_filter_compl [of snd "\<lambda>p. fst p \<noteq> ''Other''", simplified])
  also have "\<dots> = sum_list (map snd ?cs)"
    by (simp add: sum_list_map_take_drop flip: add.assoc)
  finally show ?thesis by (simp add: groupby_sum_total)
qed

text \<open>C12: The bar chart by type conserves the latest year's total count.\<close>

theorem type_chart_total: "sum_list (map snd (type_chart l)) = sum_list (map Count l)"
  by (rule type_chart_sum)


text \<open>C11: The bar chart by type (lines 130-133) ends with the Other rows, which are present, and its other rows are sorted by descending count.\<close>

theorem type_chart_other_last:
  "\<exists>xs ys. type_chart l = xs @ ys \<and> (\<forall>p\<in>set xs. fst p \<noteq> ''Other'')
           \<and> sorted_wrt (\<lambda>a b. snd b \<le> snd a) xs \<and> ys \<noteq> [] \<and> (\<forall>p\<in>set ys. fst p = ''Other'')"
proof -
  let ?cs = "sort_desc (groupby_sum Name Count l)"
  let ?df = "sort_desc (take 20 ?cs @ [(''Other'', sum_list (map snd (drop 20 ?cs)))])"
  have "(''Other'', sum_list (map snd (drop 20 ?cs))) \<in> set ?df" by simp
  then have ne: "filter (\<lambda>p. fst p = ''Other'') ?df \<noteq> []"
    by (auto simp: filter_empty_conv)
  have "sorted_wrt (\<lambda>a b. snd b \<le> snd a) (filter (\<lambda>p. fst p \<noteq> ''Other'') ?df)"
    using sorted_sort_desc by (rule sorted_wrt_filter)
  with ne show ?thesis
    unfolding type_chart_df Let_def by fastforce
qed


text \<open>C14: The bar chart by type has min(20, number of distinct types) + 1 rows.\<close>

theorem type_chart_length: "length (type_chart l) = min 20 (card (Name ` set l)) + 1"
proof -
  let ?cs = "sort_desc (groupby_sum Name Count l)"
  let ?df = "sort_desc (take 20 ?cs @ [(''Other'', sum_list (map snd (drop 20 ?cs)))])"
  have "length (type_chart l) = length ?df"
    using sum_length_filter_compl [of "\<lambda>p. fst p \<noteq> ''Other''" ?df]
    unfolding type_chart_df Let_def by simp
  then show ?thesis by (simp add: length_groupby_sum)
qed

section \<open>Witnesses\<close>

theorem pie_order_other_last_witness:
  "RName (last (pie_order (pie_chart example_rows))) = ''Other''"
proof -
  obtain xs ys where split: "pie_order (pie_chart example_rows) = xs @ ys"
    and ne: "ys \<noteq> []" and oth: "\<forall>r\<in>set ys. RName r = ''Other''"
    using pie_order_other_last [of example_rows] by blast
  have "last (pie_order (pie_chart example_rows)) \<in> set ys"
    using split ne by simp
  with oth show ?thesis by blast
qed

theorem pie_chart_top_witness:
  "key_sum Name Count example_types ''J'' \<le> 10"
proof -
  have pc: "butlast (pie_chart example_types) =
     map (\<lambda>(n, c). \<lparr>RName = n, RCount = c, RSort = c, RPct = Fin (of_int c / 55)\<rparr>)
       [(''A'', 10), (''B'', 9), (''C'', 8), (''D'', 7), (''E'', 6),
        (''F'', 5), (''G'', 4), (''H'', 3), (''I'', 2)]"
    by (simp add: example_types_def table_simps)
  have h1: "\<lparr>RName = ''A'', RCount = 10, RSort = 10, RPct = Fin (10 / 55)\<rparr>
              \<in> set (butlast (pie_chart example_types))"
    by (simp add: pc)
  have h2: "''J'' \<in> Name ` set example_types"
    by (simp add: example_types_def)
  have h3: "''J'' \<notin> RName ` set (butlast (pie_chart example_types))"
    by (simp add: pc)
  show ?thesis using pie_chart_top [OF h1 h2 h3] by simp
qed

theorem pie_chart_shares_witness:
  "\<exists>qs. map RPct (pie_chart example_rows) = map Fin qs \<and> sum_list qs = 1"
proof -
  have h: "sum_list (map Count example_rows) \<noteq> 0"
    by (simp add: example_rows_def)
  show ?thesis using pie_chart_shares [OF h] .
qed

theorem pie_chart_zero_total_witness: "RPct (last (pie_chart [])) = NaN"
proof -
  have "pie_chart [] \<noteq> [] \<and> (\<forall>r\<in>set (pie_chart []). RPct r = NaN)"
    by (rule pie_chart_zero_total) simp_all
  then show ?thesis by simp
qed

theorem latest_gender_age_drops_gender_witness:
  "latest_gender_age example_rows ''Male'' ''40 - 44'' = example_rows"
proof -
  have h: "''40 - 44'' \<noteq> ''All''" by simp
  show ?thesis using latest_gender_age_drops_gender [OF h, of example_rows "''Male''"]
    by (simp add: example_rows_def)
qed

theorem latest_gender_age_refines_witness:
  "latest_gender_age example_rows ''All'' ''40 - 44''
     = filter_latest_spec example_rows ''All'' ''40 - 44''"
  by (rule latest_gender_age_refines) simp

theorem latest_gender_age_diverges_witness:
  "latest_gender_age example_rows ''Male'' ''40 - 44''
     \<noteq> filter_latest_spec example_rows ''Male'' ''40 - 44''"
  using latest_gender_age_diverges [of "''Male''" "''40 - 44''" example_rows]
  by (simp add: example_rows_def)

theorem type_chart_other_last_witness: "fst (last (type_chart example_rows)) = ''Other''"
proof -
  obtain xs ys where split: "type_chart example_rows = xs @ ys"
    and ne: "ys \<noteq> []" and oth: "\<forall>p\<in>set ys. fst p = ''Other''"
    using type_chart_other_last [of example_rows] by blast
  have "last (type_chart example_rows) \<in> set ys"
    using split ne by simp
  with oth show ?thesis by blast
qed

end
