(* ===== verification/YearViews.thy ===== *)
theory YearViews
  imports Table "HOL-Library.Product_Lexorder"
begin

text \<open>
  The time series and the gender split of \<open>src/main.py\<close>: the counts of each year
  after 2003 (line 66), the counts of each year and gender (line 78) with the total of
  the year attached to every row and the row's share of it (lines 91--92, pandas'
  \<open>groupby('Year')['Count'].transform('sum')\<close>), and the counts of each gender in
  the latest year with their share of the year's total (lines 103--104). A group key of
  two columns is a pair, ordered lexicographically as pandas orders the groups.
\<close>

section \<open>Definitions\<close>

definition by_year :: "table \<Rightarrow> (int \<times> int) list" where
  "by_year after = groupby_sum Year Count after"

definition by_year_gender :: "table \<Rightarrow> ((int \<times> gender) \<times> int) list" where
  "by_year_gender after = groupby_sum (\<lambda>r. (Year r, Gender r)) Count after"

record year_gender_row =
  YYear :: int
  YGender :: gender
  YCount :: int
  YTotal :: int
  YPct :: pct

definition year_totals :: "((int \<times> gender) \<times> int) list \<Rightarrow> year_gender_row list" where
  "year_totals df =
     map (\<lambda>p. let y = fst (fst p);
                  total = sum_list (map snd (filter (\<lambda>q. fst (fst q) = y) df))
              in \<lparr>YYear = y, YGender = snd (fst p), YCount = snd p, YTotal = total,
                  YPct = fdiv (snd p) total\<rparr>) df"

definition by_gender :: "table \<Rightarrow> (gender \<times> int \<times> pct) list" where
  "by_gender latest =
     (let df = groupby_sum Gender Count latest
      in map2 (\<lambda>(g, c) p. (g, c, p)) df (shares (map snd df)))"

text \<open>A small table over three years, for the witnesses.\<close>

definition example_years :: table where
  "example_years =
     [\<lparr>Year = 2003, Gender = Male, Age = ''60 - 64'', Name = ''Lung'', Count = 4\<rparr>,
      \<lparr>Year = 2019, Gender = Male, Age = ''60 - 64'', Name = ''Lung'', Count = 5\<rparr>,
      \<lparr>Year = 2019, Gender = Female, Age = ''60 - 64'', Name = ''Skin'', Count = 3\<rparr>,
      \<lparr>Year = 2020, Gender = Female, Age = ''60 - 64'', Name = ''Lung'', Count = 6\<rparr>,
      \<lparr>Year = 2020, Gender = Male, Age = ''60 - 64'', Name = ''Skin'', Count = 2\<rparr>]"

lemmas [table_simps] = by_year_def by_year_gender_def year_totals_def by_gender_def

section \<open>Properties\<close>

lemma groupby_sum_filter_total:
  "sum_list (map snd (filter (\<lambda>p. P (fst p)) (groupby_sum key val rs)))
     = sum_list (map val (filter (\<lambda>r. P (key r)) rs))"
proof -
  let ?ks = "filter P (sort (remdups (map key rs)))"
  have "filter (\<lambda>p. P (fst p)) (groupby_sum key val rs) = map (\<lambda>k. (k, key_sum key val rs k)) ?ks"
    by (simp add: groupby_sum_def filter_map comp_def)
  then have "sum_list (map snd (filter (\<lambda>p. P (fst p)) (groupby_sum key val rs)))
               = (\<Sum>k\<leftarrow>?ks. key_sum key val rs k)"
    by (simp add: comp_def)
  also have "\<dots> = sum_list (map val (filter (\<lambda>r. key r \<in> set ?ks) rs))"
    by (rule key_sum_distinct) simp
  also have "filter (\<lambda>r. key r \<in> set ?ks) rs = filter (\<lambda>r. P (key r)) rs"
    by (rule filter_cong) auto
  finally show ?thesis .
qed

lemma key_sum_filter:
  "P k \<Longrightarrow> key_sum key val (filter (\<lambda>r. P (key r)) rs) k = key_sum key val rs k"
  by (simp add: key_sum_def filter_filter) (metis (mono_tags, lifting) filter_cong)

lemma year_totals_pct:
  "map YPct (filter (\<lambda>r. YYear r = y) (year_totals df))
     = shares (map snd (filter (\<lambda>p. fst (fst p) = y) df))"
  by (simp add: year_totals_def filter_map comp_def Let_def shares_def)

lemma year_totals_total:
  "r \<in> set (year_totals df) \<Longrightarrow> YTotal r = sum_list (map snd (filter (\<lambda>p. fst (fst p) = YYear r) df))"
  by (auto simp: year_totals_def Let_def)

lemma by_gender_counts: "map (\<lambda>x. fst (snd x)) (by_gender l) = map snd (groupby_sum Gender Count l)"
proof -
  have "map (\<lambda>x. fst (snd x)) (by_gender l)
          = map fst (zip (map snd (groupby_sum Gender Count l))
                         (shares (map snd (groupby_sum Gender Count l))))"
    by (simp add: by_gender_def Let_def case_prod_beta comp_def zip_map1)
  then show ?thesis by simp
qed

text \<open>C24: the by-year table of line 66 has one row per year after 2003 that occurs in the
  dataset, in increasing order of year, and no other row.\<close>

theorem by_year_keys:
  "sorted_wrt (<) (map fst (by_year (df_after_2003 t)))
   \<and> set (map fst (by_year (df_after_2003 t))) = {y \<in> Year ` set t. 2003 < y}"
  by (auto simp: by_year_def df_after_2003_def groupby_sum_strict simp del: set_map
      simp add: groupby_sum_key_set)

text \<open>C25: the by-year table implements the per-year total: looking a year up gives the sum
  of the counts of that year when the year is after 2003 and occurs, and nothing
  otherwise.\<close>

theorem by_year_refines:
  "map_of (by_year (df_after_2003 t)) y
     = (if 2003 < y \<and> y \<in> Year ` set t then Some (key_sum Year Count t y) else None)"
proof (cases "2003 < y")
  case True
  then show ?thesis
    using key_sum_filter [of "\<lambda>y. 2003 < y" y Year Count t]
    by (auto simp: by_year_def df_after_2003_def map_of_groupby_sum)
next
  case False
  then show ?thesis
    by (auto simp: by_year_def df_after_2003_def map_of_groupby_sum)
qed

text \<open>C26: every row of the year-and-gender table (lines 78 and 91) carries as its total the
  sum of all counts of its year, over both genders.\<close>

theorem year_totals_refines:
  "r \<in> set (year_totals (by_year_gender a)) \<Longrightarrow> YTotal r = key_sum Year Count a (YYear r)"
  using groupby_sum_filter_total [of "\<lambda>k. fst k = YYear r" "\<lambda>r. (Year r, Gender r)" Count a]
  by (simp add: year_totals_total by_year_gender_def key_sum_def)

text \<open>C27: within a year whose total is not zero, the percentages of line 92 are finite and
  the genders' shares of that year sum to 1.\<close>

theorem year_gender_shares:
  "key_sum Year Count a y \<noteq> 0 \<Longrightarrow>
     \<exists>qs. map YPct (filter (\<lambda>r. YYear r = y) (year_totals (by_year_gender a))) = map Fin qs
          \<and> sum_list qs = 1"
  unfolding year_totals_pct
  using groupby_sum_filter_total [of "\<lambda>k. fst k = y" "\<lambda>r. (Year r, Gender r)" Count a]
  by (intro shares_sum_one) (simp add: by_year_gender_def key_sum_def)

text \<open>C28: when the latest year has a non-zero total, the percentages of the gender table
  (line 104) are finite and sum to 1.\<close>

theorem by_gender_shares:
  "sum_list (map Count l) \<noteq> 0 \<Longrightarrow>
     \<exists>qs. map (\<lambda>x. snd (snd x)) (by_gender l) = map Fin qs \<and> sum_list qs = 1"
proof -
  assume tot: "sum_list (map Count l) \<noteq> 0"
  let ?df = "groupby_sum Gender Count l"
  have "map (\<lambda>x. snd (snd x)) (by_gender l) = map snd (zip ?df (shares (map snd ?df)))"
    by (simp add: by_gender_def Let_def case_prod_beta comp_def)
  also have "\<dots> = shares (map snd ?df)"
    by (simp add: map_snd_zip)
  finally have "map (\<lambda>x. snd (snd x)) (by_gender l) = shares (map snd ?df)" .
  moreover have "sum_list (map snd ?df) \<noteq> 0"
    using tot by (simp add: groupby_sum_total)
  ultimately show ?thesis
    using shares_sum_one by simp
qed

section \<open>Witnesses\<close>

theorem year_totals_refines_witness: "key_sum Year Count example_years 2019 = 8"
proof -
  have h: "\<lparr>YYear = 2019, YGender = Female, YCount = 3, YTotal = 8, YPct = Fin (3 / 8)\<rparr>
             \<in> set (year_totals (by_year_gender example_years))"
    by code_simp
  show ?thesis using year_totals_refines [OF h] by simp
qed

theorem year_gender_shares_witness:
  "\<exists>qs. map YPct (filter (\<lambda>r. YYear r = 2019) (year_totals (by_year_gender example_years)))
          = map Fin qs \<and> sum_list qs = 1"
proof -
  have h: "key_sum Year Count example_years 2019 \<noteq> 0"
    by (simp add: example_years_def key_sum_def)
  show ?thesis by (rule year_gender_shares [OF h])
qed

theorem by_gender_shares_witness:
  "\<exists>qs. map (\<lambda>x. snd (snd x)) (by_gender example_years) = map Fin qs \<and> sum_list qs = 1"
proof -
  have h: "sum_list (map Count example_years) \<noteq> 0"
    by (simp add: example_years_def)
  show ?thesis by (rule by_gender_shares [OF h])
qed

end
