(* ===== verification/Dashboard.thy ===== *)
theory Dashboard
  imports AgeGroups TopTypes YearViews
begin

text \<open>
  The whole script of \<open>src/main.py\<close> as one function from the dataset and the two
  selections to the tables every chart receives. It follows the script's order: the
  prepared frames (lines 21--22, where an empty dataset raises), the age selector's
  options (lines 30--33, where a label without a bound raises), the pie (35--55), the
  year and gender views (66, 78, 91--92, 103--104), the by-age table (115--119) and the
  bar table by type (130--133). The first error ends the script, as an uncaught
  \<open>ValueError\<close> ends a Streamlit run.
\<close>

section \<open>Definitions\<close>

record dashboard =
  TopChart :: "chart_row list"
  YearChart :: "(int \<times> int) list"
  YearGenderChart :: "year_gender_row list"
  GenderChart :: "(gender \<times> int \<times> pct) list"
  AgeChart :: "(label \<times> int) list"
  TypeChart :: "(label \<times> int) list"
  AgeOptions :: "label list"

definition run_dashboard :: "table \<Rightarrow> string \<Rightarrow> string \<Rightarrow> error + dashboard" where
  "run_dashboard df_all gender age =
     (let after = df_after_2003 df_all in
      case df_latest df_all of
        Inl e \<Rightarrow> Inl e
      | Inr latest \<Rightarrow>
          (case age_options df_all of
             Inl e \<Rightarrow> Inl e
           | Inr opts \<Rightarrow>
               (case by_age latest of
                  Inl e \<Rightarrow> Inl e
                | Inr ages \<Rightarrow>
                    Inr \<lparr>TopChart = pie_chart (latest_gender_age latest gender age),
                         YearChart = by_year after,
                         YearGenderChart = year_totals (by_year_gender after),
                         GenderChart = by_gender latest,
                         AgeChart = ages,
                         TypeChart = type_chart latest,
                         AgeOptions = opts\<rparr>)))"

text \<open>A dataset with an age label that \<open>int()\<close> rejects, for the witnesses.\<close>

definition example_bad_label :: table where
  "example_bad_label =
     [\<lparr>Year = 2020, Gender = Male, Age = ''40-44'', Name = ''Lung'', Count = 1\<rparr>]"

section \<open>Properties\<close>

lemma run_dashboard_Inr:
  assumes "run_dashboard t gender age = Inr d"
  obtains latest opts ages where "df_latest t = Inr latest" "age_options t = Inr opts"
    "by_age latest = Inr ages"
    "d = \<lparr>TopChart = pie_chart (latest_gender_age latest gender age),
          YearChart = by_year (df_after_2003 t),
          YearGenderChart = year_totals (by_year_gender (df_after_2003 t)),
          GenderChart = by_gender latest, AgeChart = ages, TypeChart = type_chart latest,
          AgeOptions = opts\<rparr>"
  using assms by (auto simp: run_dashboard_def Let_def split: sum.splits)

lemma by_age_latest_defined:
  assumes "df_latest t = Inr latest" and "age_options t = Inr opts"
  shows "\<exists>ages. by_age latest = Inr ages"
proof (rule by_age_defined)
  show "\<forall>r\<in>set latest. \<exists>b. extract_lower_bound (Age r) = Inr b"
    using age_options_labels [OF assms(2)] df_latest_sub [OF assms(1)] by blast
qed

lemma run_dashboard_defined:
  assumes "t \<noteq> []" and "\<forall>r\<in>set t. \<exists>b. extract_lower_bound (Age r) = Inr b"
  shows "\<exists>d. run_dashboard t gender age = Inr d"
proof -
  obtain latest where lt: "df_latest t = Inr latest"
    using assms(1) by (auto simp: df_latest_Inr)
  obtain opts where op: "age_options t = Inr opts"
    using age_options_defined [OF assms(2)] by blast
  obtain ages where "by_age latest = Inr ages"
    using by_age_latest_defined [OF lt op] by blast
  with lt op show ?thesis by (simp add: run_dashboard_def Let_def)
qed

lemma example_ages_parse: "\<forall>r\<in>set example_ages. \<exists>b. extract_lower_bound (Age r) = Inr b"
  using lb_ex by (auto simp: example_ages_def)

text \<open>C29: on a non-empty dataset the script fails exactly when building the age selector
  fails (lines 30--31), and with that error: the by-age table of line 117 cannot fail
  once the selector's labels all parse, and no other step raises.\<close>

theorem run_dashboard_label_error:
  "t \<noteq> [] \<Longrightarrow> run_dashboard t gender age = Inl e \<longleftrightarrow> age_options t = Inl e"
proof -
  assume "t \<noteq> []"
  then obtain latest where lt: "df_latest t = Inr latest"
    by (auto simp: df_latest_Inr)
  show ?thesis
  proof (cases "age_options t")
    case (Inl e')
    with lt show ?thesis by (simp add: run_dashboard_def)
  next
    case (Inr opts)
    with by_age_latest_defined [OF lt Inr] lt show ?thesis
      by (auto simp: run_dashboard_def Let_def)
  qed
qed

text \<open>C30: on a non-empty dataset whose age labels all have a lower bound (a \<open>-\<close>
  only inside a \<open>' - '\<close> separator after an integer, or no \<open>-\<close> at all), the
  whole script runs and produces every chart, for any selections.\<close>

theorem run_dashboard_ok:
  assumes "t \<noteq> []" and "\<forall>r\<in>set t. \<exists>b. extract_lower_bound (Age r) = Inr b"
  shows "\<exists>d. run_dashboard t gender age = Inr d"
  using assms by (rule run_dashboard_defined)

text \<open>C31: the two selectors affect only the top-types pie: two runs on the same dataset
  with any selections produce the same year, year-and-gender, gender, age and type
  tables and the same age options.\<close>

theorem run_dashboard_selectors_local:
  assumes "run_dashboard t gender age = Inr d" and "run_dashboard t gender' age' = Inr d'"
  shows "d\<lparr>TopChart := []\<rparr> = d'\<lparr>TopChart := []\<rparr>"
  using assms by (elim run_dashboard_Inr) auto

text \<open>C32: the charts of the latest year agree: the bar chart by type sums to the cases of
  the latest year, and the by-age chart and the gender chart sum to the same number.\<close>

theorem run_dashboard_totals:
  assumes "run_dashboard t gender age = Inr d"
  shows "sum_list (map snd (TypeChart d)) = sum_list (map Count (filter (\<lambda>r. Year r = Max (Year ` set t)) t))
         \<and> sum_list (map snd (AgeChart d)) = sum_list (map snd (TypeChart d))
         \<and> sum_list (map (\<lambda>x. fst (snd x)) (GenderChart d)) = sum_list (map snd (TypeChart d))"
proof (rule run_dashboard_Inr [OF assms])
  fix latest opts ages
  assume lt: "df_latest t = Inr latest" and ag: "by_age latest = Inr ages"
    and d: "d = \<lparr>TopChart = pie_chart (latest_gender_age latest gender age),
          YearChart = by_year (df_after_2003 t),
          YearGenderChart = year_totals (by_year_gender (df_after_2003 t)),
          GenderChart = by_gender latest, AgeChart = ages, TypeChart = type_chart latest,
          AgeOptions = opts\<rparr>"
  have latest: "latest = filter (\<lambda>r. Year r = Max (Year ` set t)) t"
    using lt by (simp add: df_latest_Inr)
  have "sum_list (map (\<lambda>x. fst (snd x)) (by_gender latest)) = sum_list (map Count latest)"
    by (simp add: by_gender_counts groupby_sum_total)
  with by_age_sum [OF ag] type_chart_sum [of latest] latest d show ?thesis
    by simp
qed

section \<open>Witnesses\<close>

theorem run_dashboard_label_error_witness:
  "run_dashboard example_bad_label ''All'' ''All'' = Inl (InvalidLiteral ''40-44'')"
proof -
  have ne: "example_bad_label \<noteq> []" by (simp add: example_bad_label_def)
  have "age_options example_bad_label = Inl (InvalidLiteral ''40-44'')" by code_simp
  then show ?thesis using run_dashboard_label_error [OF ne] by blast
qed

theorem run_dashboard_ok_witness: "\<exists>d. run_dashboard example_ages ''Male'' ''0 - 4'' = Inr d"
proof -
  have ne: "example_ages \<noteq> []" by (simp add: example_ages_def)
  show ?thesis by (rule run_dashboard_ok [OF ne example_ages_parse])
qed

theorem run_dashboard_selectors_local_witness:
  "\<exists>d d'. run_dashboard example_ages ''Male'' ''All'' = Inr d
          \<and> run_dashboard example_ages ''All'' ''0 - 4'' = Inr d'
          \<and> d\<lparr>TopChart := []\<rparr> = d'\<lparr>TopChart := []\<rparr>"
proof -
  have ne: "example_ages \<noteq> []" by (simp add: example_ages_def)
  obtain d where d: "run_dashboard example_ages ''Male'' ''All'' = Inr d"
    using run_dashboard_defined [OF ne example_ages_parse] by blast
  obtain d' where d': "run_dashboard example_ages ''All'' ''0 - 4'' = Inr d'"
    using run_dashboard_defined [OF ne example_ages_parse] by blast
  show ?thesis using d d' run_dashboard_selectors_local [OF d d'] by blast
qed

theorem run_dashboard_totals_witness:
  "\<exists>d. run_dashboard example_ages ''All'' ''All'' = Inr d
        \<and> sum_list (map snd (TypeChart d)) = 13
        \<and> sum_list (map snd (AgeChart d)) = 13
        \<and> sum_list (map (\<lambda>x. fst (snd x)) (GenderChart d)) = 13"
proof -
  have ne: "example_ages \<noteq> []" by (simp add: example_ages_def)
  obtain d where d: "run_dashboard example_ages ''All'' ''All'' = Inr d"
    using run_dashboard_defined [OF ne example_ages_parse] by blast
  have "sum_list (map Count (filter (\<lambda>r. Year r = Max (Year ` set example_ages)) example_ages)) = 13"
    by (simp add: example_ages_def)
  then show ?thesis using d run_dashboard_totals [OF d] by auto
qed

end
