(* ===== verification/Spec2Isabelle.thy ===== *)
theory Spec2Isabelle
  imports Dashboard
begin

text \<open>
  \<^bold>\<open>A verification model of the cancer-incidence dashboard (\<open>src/main.py\<close>).\<close>

  \<^bold>\<open>The program.\<close> \<open>src/main.py\<close> is one Streamlit script. It reads
  \<open>all_data.csv\<close> (columns \<open>Year, Gender, Age, Name, Count\<close>) into a dataframe,
  prepares the rows after 2003 and the rows of the latest year (lines 21--22), and then
  builds six charts from derived tables: the top cancer types of the latest year filtered
  by two selectors (lines 24--63), cases by year (66), by year and gender with each
  gender's share of the year (78--100), by gender (103--112), by age group (115--127) and
  by type (130--143). The helper \<open>extract_lower_bound\<close> (lines 7--12) orders the age
  groups, both in the age selector (30--33) and in the by-age chart. Rendering
  (Streamlit, Altair) receives the derived tables; the only rendering decision the code
  takes that bears on the tables' meaning is the draw order of the pie (line 60).

  \<^bold>\<open>Theories.\<close>
  \<^item> \<open>Prelude\<close>: generic facts on sums over lists, filters and sorted partitions.
  \<^item> \<open>Table\<close>: a row is the record \<open>incidence\<close>, a dataframe a list of rows in file
    order; \<open>gender\<close> is a datatype ordered by its name as pandas orders the strings;
    \<open>error\<close> holds the two \<open>ValueError\<close>s the script can raise. It models
    Python's \<open>max\<close> (\<open>py_max\<close>), the prepared frames (\<open>df_after_2003\<close>,
    \<open>df_latest\<close>), pandas' group-by-sum (\<open>groupby_sum\<close>, with the abstract
    per-key sum \<open>key_sum\<close>), \<open>sort_values(ascending=False)\<close> (\<open>sort_desc\<close>)
    and numpy's division of a count by a total (\<open>fdiv\<close>, \<open>shares\<close>: rationals
    for finite results, \<open>NaN\<close>, \<open>PosInf\<close>, \<open>NegInf\<close>).
  \<^item> \<open>PyBuiltins\<close>: \<open>str.split\<close> (\<open>py_split\<close>), \<open>int()\<close> in base 10
    (\<open>py_int\<close>: whitespace stripping, sign, digits with single underscores) and
    \<open>str()\<close> of an integer (\<open>py_str\<close>, used only to state round trips).
  \<^item> \<open>AgeGroups\<close>: \<open>extract_lower_bound\<close>, pandas' \<open>Series.apply\<close> raising the
    first error (\<open>series_apply\<close>), \<open>Series.unique\<close> (\<open>py_unique\<close>), the age
    selector's options (\<open>age_options\<close>) and the by-age table (\<open>by_age\<close>).
  \<^item> \<open>TopTypes\<close>: the selector filter (\<open>latest_gender_age\<close>), the pie table
    (\<open>pie_chart\<close>, rows of the record \<open>chart_row\<close> with the columns
    \<open>Name, Count, Sort, Percentage\<close>), its draw order (\<open>pie_order\<close>) and the bar
    table by type (\<open>type_chart\<close>). \<open>filter_latest_spec\<close> is the
    specification's filter, kept as the abstract contract the code is compared with.
  \<^item> \<open>YearViews\<close>: the by-year table of line 66 (\<open>by_year\<close>), the by-year-and-gender
    table of line 78 (\<open>by_year_gender\<close>, a pair key ordered lexicographically) with its
    \<open>Total\<close> and \<open>Percentage\<close> columns of lines 91--92 (\<open>year_totals\<close>, rows of
    the record \<open>year_gender_row\<close>), and the gender table of lines 103--104
    (\<open>by_gender\<close>).
  \<^item> \<open>Dashboard\<close>: the whole script as \<open>run_dashboard\<close>, a function from the dataset
    and the two selections to the record \<open>dashboard\<close> of all derived tables and the
    age options. It runs the steps in the script's order and returns the first
    \<open>ValueError\<close> (line 22, 31 or 116) as \<open>Inl\<close>, as an uncaught exception ends a
    Streamlit run.

  \<^bold>\<open>What is proved.\<close> For the pie: conservation of the total, Other drawn last,
  the kept types are the largest, the Other slice is exactly the rest, shares summing to 1
  or all \<open>NaN\<close> on a zero total, the number of rows; the selector filter ignores the
  gender selection once an age group is selected (a defect of line 39), refines the
  specification when either selector is All, and with both selectors set differs from the
  specification exactly when a row of the selected age group has the other gender. For the bar chart by type: conservation,
  Other last, the \<open>isin\<close> formulation of line 131 equals the fold of the pie, the
  number of rows. For the age groups: the parse/print round trip of the lower bound, 85
  for open labels, the \<open>ValueError\<close> of labels such as \<open>40-44\<close>, the by-age table
  sorted by bound, a permutation of the grouped counts and computed without error when
  every label parses, and the age selector's options. For the frame operations: group-by
  lookups refine the per-key sums; the latest year fails exactly on an empty dataset;
  \<open>str.split\<close> with a non-empty separator cuts at every occurrence of it (joining the
  fields gives the string back, and no field contains the separator). For the year and gender views: one row per
  year after 2003 in increasing order, lookups equal to the per-year sums, every row's
  \<open>Total\<close> equal to its year's sum, and the shares of each year and of the gender table
  summing to 1 when the total is not zero. For the whole script: on a non-empty dataset it
  fails exactly when the age selector fails; it runs to the end when
  every label has a bound; the selectors change only the pie; the type, age and gender
  charts all sum to the latest year's cases.

  \<^bold>\<open>Choices.\<close> Every definition is executable; the witnesses evaluate it by
  \<open>simp\<close> or \<open>code_simp\<close> on the tables \<open>example_rows\<close> (the specification's
  scenario), \<open>example_ages\<close> and \<open>example_types\<close>. No loop needs fuel: every
  recursion is structural or has a length measure (\<open>py_split\<close>, \<open>py_unique\<close>).
  Sorting is stable insertion sort by key (\<open>sort_key\<close>); pandas' default quicksort
  may order ties differently, and no theorem here depends on the order of ties.

  \<^bold>\<open>Not modelled.\<close> Reading the CSV (the table is the input), Streamlit layout and
  widgets (the selections are inputs: any string, of which the widgets offer only
  \<open>All\<close>, \<open>Male\<close>, \<open>Female\<close> and the age options), Altair's rendering beyond
  the pie's draw order, floating-point rounding of the percentages (they are exact
  rationals), and \<open>int64\<close> overflow of the sums (Python and pandas counts of cases stay
  far below it). Labels are sequences of code points below 256.

  \<^bold>\<open>Plan for the next sittings.\<close> A one-pass group-by (hash aggregation into a
  map, as pandas computes it) proved equal to \<open>groupby_sum\<close>; the pie's stacking order
  and the year-and-gender chart's normalisation against the computed percentages.
\<close>

end
